theory Spec2Isabelle
  imports Complex_Main
begin

section \<open>Hospital waiting forecast: the recursive slot simulation of app.py\<close>

text \<open>
  The development embeds the prediction block of \<^verbatim>\<open>src/hospital_app/app.py\<close>
  (lines 79 to 157): the calendar classification of the target date and of the day
  before it, the 30-minute time slots, the two one-row data frames built per slot, the
  three scorers called on them and the state carried from slot to slot.

  The collaborators of that block are parameters of the model: the public-holiday
  lookup \<^verbatim>\<open>jpholiday.is_holiday\<close>, the three boosters (a function from the
  matrix they are given to the number they return, or to an error when the call
  raises) and the two column lists read from JSON.
\<close>

subsection \<open>Python values\<close>

text \<open>
  A Python \<^verbatim>\<open>str\<close> is a sequence of Unicode code points. Column names and
  weather values contain Japanese characters, so a string is a list of code points;
  \<open>ascii\<close> writes an ASCII literal.
\<close>

type_synonym pystr = "nat list"

definition ascii :: "string \<Rightarrow> pystr" where
  "ascii s = map of_char s"

text \<open>The exceptions that the modelled block and its library calls can raise.\<close>

datatype error = OverflowError | KeyError | ValueError | PredictorError

text \<open>\<^verbatim>\<open>a in b\<close> on strings: \<open>a\<close> occurs in \<open>b\<close> as a contiguous piece.\<close>

fun startswith :: "pystr \<Rightarrow> pystr \<Rightarrow> bool" where
  "startswith s [] = True"
| "startswith [] (p # ps) = False"
| "startswith (c # cs) (p # ps) = (c = p \<and> startswith cs ps)"

fun str_in :: "pystr \<Rightarrow> pystr \<Rightarrow> bool" where
  "str_in a [] = (a = [])"
| "str_in a (c # cs) = (startswith (c # cs) a \<or> str_in a cs)"

text \<open>\<^verbatim>\<open>str(n)\<close> of a non-negative integer, as an f-string formats it.\<close>

definition digit :: "nat \<Rightarrow> nat" where
  "digit n = 48 + n"

fun str_nat :: "nat \<Rightarrow> pystr" where
  "str_nat n = (if n < 10 then [digit n] else str_nat (n div 10) @ [digit (n mod 10)])"

text \<open>
  \<^verbatim>\<open>round(x)\<close> with one argument: the nearest integer, a tie going to the even
  neighbour. The scorer's output is a finite binary float, so it is a real number and
  the rounding is exact.
\<close>

definition py_round :: "real \<Rightarrow> int" where
  "py_round x =
     (let f = \<lfloor>x\<rfloor>; d = x - of_int f
      in if d < 1 / 2 then f
         else if 1 / 2 < d then f + 1
         else if even f then f else f + 1)"

text \<open>\<^verbatim>\<open>int(max(0, round(x)))\<close>, the expression of lines 126, 144 and 145.\<close>

definition round_clamp :: "real \<Rightarrow> int" where
  "round_clamp x = max 0 (py_round x)"

subsection \<open>Dates\<close>

text \<open>
  \<^verbatim>\<open>datetime.date\<close>: a year from 1 to 9999, a month and a day of that month.
  \<open>toordinal\<close> and \<open>weekday\<close> follow the standard library: day 1 is 0001-01-01,
  and \<open>weekday\<close> is 0 on Monday and 6 on Sunday.
\<close>

record date =
  year :: nat
  month :: nat
  day :: nat

definition is_leap :: "nat \<Rightarrow> bool" where
  "is_leap y = (y mod 4 = 0 \<and> (y mod 100 \<noteq> 0 \<or> y mod 400 = 0))"

definition days_in_month :: "nat \<Rightarrow> nat \<Rightarrow> nat" where
  "days_in_month y m =
     (if m = 2 then (if is_leap y then 29 else 28)
      else if m = 4 \<or> m = 6 \<or> m = 9 \<or> m = 11 then 30 else 31)"

definition valid_date :: "date \<Rightarrow> bool" where
  "valid_date d =
     (1 \<le> year d \<and> year d \<le> 9999 \<and> 1 \<le> month d \<and> month d \<le> 12 \<and>
      1 \<le> day d \<and> day d \<le> days_in_month (year d) (month d))"

definition days_before_year :: "nat \<Rightarrow> nat" where
  "days_before_year y =
     (let p = y - 1 in (p * 365 + p div 4 + p div 400) - p div 100)"

definition days_before_month :: "nat \<Rightarrow> nat \<Rightarrow> nat" where
  "days_before_month y m = sum_list (map (days_in_month y) [1..<m])"

definition toordinal :: "date \<Rightarrow> nat" where
  "toordinal d = days_before_year (year d) + days_before_month (year d) (month d) + day d"

definition weekday :: "date \<Rightarrow> nat" where
  "weekday d = (toordinal d + 6) mod 7"

text \<open>
  \<^verbatim>\<open>d - timedelta(days=1)\<close>: the day before, or OverflowError when \<open>d\<close> is
  \<^verbatim>\<open>date.min\<close>.
\<close>

definition sub_one_day :: "date \<Rightarrow> error + date" where
  "sub_one_day d =
     (if 1 < day d then Inr (d\<lparr>day := day d - 1\<rparr>)
      else if 1 < month d then
        Inr \<lparr>year = year d, month = month d - 1,
             day = days_in_month (year d) (month d - 1)\<rparr>
      else if 1 < year d then Inr \<lparr>year = year d - 1, month = 12, day = 31\<rparr>
      else Inl OverflowError)"

subsection \<open>Calendar classification (lines 82 to 95)\<close>

text \<open>
  The source writes the same four-way disjunction twice, once on \<^verbatim>\<open>target_date\<close>
  and once on \<^verbatim>\<open>prev_date\<close>. \<open>jp\<close> is \<^verbatim>\<open>jpholiday.is_holiday\<close>.
\<close>

definition is_holiday :: "(date \<Rightarrow> bool) \<Rightarrow> date \<Rightarrow> bool" where
  "is_holiday jp target_date =
     (jp target_date
      \<or> 5 \<le> weekday target_date
      \<or> (month target_date = 12 \<and> 29 \<le> day target_date)
      \<or> (month target_date = 1 \<and> day target_date \<le> 3))"

definition is_prev_holiday :: "(date \<Rightarrow> bool) \<Rightarrow> date \<Rightarrow> error + bool" where
  "is_prev_holiday jp target_date =
     (case sub_one_day target_date of
        Inl e \<Rightarrow> Inl e
      | Inr prev_date \<Rightarrow>
          Inr (jp prev_date
               \<or> 5 \<le> weekday prev_date
               \<or> (month prev_date = 12 \<and> 29 \<le> day prev_date)
               \<or> (month prev_date = 1 \<and> day prev_date \<le> 3)))"

subsection \<open>One-row data frames\<close>

text \<open>
  \<^verbatim>\<open>pd.DataFrame(0, index=[0], columns=cols)\<close> has one row, so a frame is the
  list of its columns in order, each a name and the value of the row. The three
  operations the source uses are modelled as pandas performs them, duplicate column
  names included:
  \<^item> \<^verbatim>\<open>df[c] = v\<close> overwrites every column named \<open>c\<close>, and appends a new
    column at the end when there is none;
  \<^item> \<^verbatim>\<open>df[cols]\<close> returns, for each name of \<open>cols\<close> in turn, the columns of
    that name, and raises KeyError when a name has no column.
\<close>

type_synonym frame = "(pystr \<times> int) list"

definition columns :: "frame \<Rightarrow> pystr list" where
  "columns df = map fst df"

definition DataFrame :: "int \<Rightarrow> pystr list \<Rightarrow> frame" where
  "DataFrame v cols = map (\<lambda>c. (c, v)) cols"

definition setitem :: "frame \<Rightarrow> pystr \<Rightarrow> int \<Rightarrow> frame" where
  "setitem df c v =
     (if c \<in> set (columns df) then map (\<lambda>(k, x). if k = c then (k, v) else (k, x)) df
      else df @ [(c, v)])"

definition getitem :: "frame \<Rightarrow> pystr list \<Rightarrow> error + frame" where
  "getitem df cols =
     (if list_all (\<lambda>c. c \<in> set (columns df)) cols
      then Inr (concat (map (\<lambda>c. filter (\<lambda>kv. fst kv = c) df) cols))
      else Inl KeyError)"

text \<open>The value of a field of a frame whose column names are distinct.\<close>

definition field :: "frame \<Rightarrow> pystr \<Rightarrow> int option" where
  "field df c = map_of df c"

text \<open>
  \<^verbatim>\<open>xgb.DMatrix(df)\<close> keeps the columns of the frame as its feature names and
  values. xgboost refuses feature names that are not unique, and names containing one
  of the characters \<^verbatim>\<open>[\<close>, \<^verbatim>\<open>]\<close> and \<^verbatim>\<open><\<close>, with ValueError.
\<close>

definition forbidden_chars :: "nat list" where
  "forbidden_chars = [91, 93, 60]"

definition valid_feature_names :: "pystr list \<Rightarrow> bool" where
  "valid_feature_names names =
     (distinct names \<and> \<not> list_ex (\<lambda>f. list_ex (\<lambda>x. str_in [x] f) forbidden_chars) names)"

definition DMatrix :: "frame \<Rightarrow> error + frame" where
  "DMatrix df = (if valid_feature_names (columns df) then Inr df else Inl ValueError)"

subsection \<open>Column names and weather values\<close>

definition col_hour :: pystr where "col_hour = ascii ''hour''"
definition col_minute :: pystr where "col_minute = ascii ''minute''"
definition col_is_holiday :: pystr where "col_is_holiday = ascii ''is_holiday''"
definition col_total :: pystr where "col_total = ascii ''total_outpatient_count''"
definition col_reception :: pystr where "col_reception = ascii ''reception_count''"
definition col_queue_at_start :: pystr where
  "col_queue_at_start = ascii ''queue_at_start_of_slot''"

text \<open>The suffix U+30D5 U+30E9 U+30B0 ("flag") of the three Japanese column names.\<close>

definition furagu :: pystr where "furagu = [0x30D5, 0x30E9, 0x30B0]"

text \<open>U+96E8 is the character for rain, U+96EA the one for snow.\<close>

definition ame :: pystr where "ame = [0x96E8]"
definition yuki :: pystr where "yuki = [0x96EA]"

definition col_prev_holiday :: pystr where
  "col_prev_holiday = [0x524D, 0x65E5, 0x795D, 0x65E5] @ furagu"
definition col_rain :: pystr where "col_rain = ame @ furagu"
definition col_snow :: pystr where "col_snow = yuki @ furagu"

text \<open>\<^verbatim>\<open>f"lag_{(i+1)*30}min"\<close> of line 121.\<close>

definition lag_col :: "nat \<Rightarrow> pystr" where
  "lag_col i = ascii ''lag_'' @ str_nat ((i + 1) * 30) @ ascii ''min''"

text \<open>
  The six options of the weather select box (line 71), in its order: clear (U+6674),
  cloudy (U+66C7), rain, snow, fine (U+5FEB U+6674), lightly cloudy (U+8584 U+66C7).
\<close>

definition weather_options :: "pystr list" where
  "weather_options = [[0x6674], [0x66C7], ame, yuki, [0x5FEB, 0x6674], [0x8584, 0x66C7]]"

subsection \<open>Time slots (lines 97 to 101)\<close>

text \<open>
  A \<^verbatim>\<open>pd.Timestamp\<close> of the target date. \<open>date_range\<close> is
  \<^verbatim>\<open>pd.date_range(start, end, freq)\<close> for two timestamps of one day and a step in
  minutes: \<open>start\<close>, \<open>start + freq\<close>, ... up to and including \<open>end\<close>.
  The target date is taken to be one that pandas represents as a timestamp, as every
  date the date picker offers is.
\<close>

record timestamp =
  ts_date :: date
  hour :: nat
  minute :: nat

definition Timestamp :: "date \<Rightarrow> timestamp" where
  "Timestamp d = \<lparr>ts_date = d, hour = 0, minute = 0\<rparr>"

definition replace_hm :: "timestamp \<Rightarrow> nat \<Rightarrow> nat \<Rightarrow> timestamp" where
  "replace_hm ts h m = ts\<lparr>hour := h, minute := m\<rparr>"

definition minute_of_day :: "timestamp \<Rightarrow> nat" where
  "minute_of_day ts = hour ts * 60 + minute ts"

definition date_range :: "timestamp \<Rightarrow> timestamp \<Rightarrow> nat \<Rightarrow> timestamp list" where
  "date_range start end freq =
     (if minute_of_day end < minute_of_day start then []
      else map (\<lambda>k. let m = minute_of_day start + k * freq
                     in start\<lparr>hour := m div 60, minute := m mod 60\<rparr>)
               [0..<Suc ((minute_of_day end - minute_of_day start) div freq)])"

definition time_slots :: "date \<Rightarrow> timestamp list" where
  "time_slots target_date =
     date_range (replace_hm (Timestamp target_date) 8 0)
                (replace_hm (Timestamp target_date) 18 0) 30"

text \<open>\<^verbatim>\<open>ts.strftime("%H:%M")\<close>: hour and minute, two digits each.\<close>

definition two_digits :: "nat \<Rightarrow> pystr" where
  "two_digits n = [digit (n div 10), digit (n mod 10)]"

definition strftime_HM :: "timestamp \<Rightarrow> pystr" where
  "strftime_HM ts = two_digits (hour ts) @ ascii '':'' @ two_digits (minute ts)"

subsection \<open>Models, inputs and the state of the loop\<close>

text \<open>
  What \<^verbatim>\<open>load_models\<close> returns (lines 41 to 47). A booster is the function
  \<^verbatim>\<open>model.predict(d)[0]\<close> of the matrix \<open>d\<close>: the float it returns, or the
  error it raises. A float that is not finite makes \<^verbatim>\<open>round\<close> raise, which ends
  the run as an error of the scorer does; it is an error result here.
\<close>

record models =
  count_model :: "frame \<Rightarrow> error + real"
  waittime_model :: "frame \<Rightarrow> error + real"
  queue_model :: "frame \<Rightarrow> error + real"
  count_cols :: "pystr list"
  multi_cols :: "pystr list"

text \<open>
  The variables that stay fixed during the loop: the two flags computed before it,
  \<^verbatim>\<open>total_patients\<close> and \<^verbatim>\<open>weather\<close>.
\<close>

record day_context =
  ctx_is_holiday :: bool
  ctx_is_prev_holiday :: bool
  ctx_total_patients :: int
  ctx_weather :: pystr

text \<open>
  One row of \<^verbatim>\<open>results\<close> (lines 147 to 152); the four keys of the source's
  dictionary are the time band, the predicted receptions, the predicted number of
  people waiting and the predicted mean waiting time in minutes.
\<close>

record slot_result =
  time_label :: pystr
  predicted_arrivals :: int
  predicted_queue :: int
  predicted_wait_minutes :: int

text \<open>The variables the loop updates: \<^verbatim>\<open>results\<close>, \<^verbatim>\<open>lags\<close>, \<^verbatim>\<open>queue_at_start\<close>.\<close>

record loop_state =
  results :: "slot_result list"
  lags :: "int list"
  queue_at_start :: int

definition init_state :: loop_state where
  "init_state = \<lparr>results = [], lags = [0, 0, 0], queue_at_start = 0\<rparr>"

subsection \<open>The two feature frames (lines 111 to 123 and 131 to 140)\<close>

text \<open>\<^verbatim>\<open>int(b)\<close> of a bool.\<close>

definition int_of_bool :: "bool \<Rightarrow> int" where
  "int_of_bool b = (if b then 1 else 0)"

text \<open>The loop of lines 120 to 123 over \<^verbatim>\<open>enumerate(lags)\<close>.\<close>

fun set_lags :: "frame \<Rightarrow> (nat \<times> int) list \<Rightarrow> frame" where
  "set_lags df [] = df"
| "set_lags df ((i, lag) # rest) =
     (let col = lag_col i
      in set_lags (if col \<in> set (columns df) then setitem df col lag else df) rest)"

definition build_df_count :: "pystr list \<Rightarrow> day_context \<Rightarrow> timestamp \<Rightarrow> int list \<Rightarrow> frame" where
  "build_df_count cols ctx ts lgs =
     (let df = DataFrame 0 cols;
          df = setitem df col_hour (int (hour ts));
          df = setitem df col_minute (int (minute ts));
          df = setitem df col_is_holiday (int_of_bool (ctx_is_holiday ctx));
          df = setitem df col_total (ctx_total_patients ctx);
          df = setitem df col_prev_holiday (int_of_bool (ctx_is_prev_holiday ctx));
          df = setitem df col_rain (int_of_bool (str_in ame (ctx_weather ctx)));
          df = setitem df col_snow (int_of_bool (str_in yuki (ctx_weather ctx)))
      in set_lags df (enumerate 0 lgs))"

definition build_df_multi :: "pystr list \<Rightarrow> day_context \<Rightarrow> timestamp \<Rightarrow> int \<Rightarrow> int \<Rightarrow> frame" where
  "build_df_multi cols ctx ts reception q =
     (let df = DataFrame 0 cols;
          df = setitem df col_hour (int (hour ts));
          df = setitem df col_minute (int (minute ts));
          df = setitem df col_reception reception;
          df = setitem df col_queue_at_start q;
          df = setitem df col_is_holiday (int_of_bool (ctx_is_holiday ctx));
          df = setitem df col_total (ctx_total_patients ctx);
          df = setitem df col_prev_holiday (int_of_bool (ctx_is_prev_holiday ctx));
          df = setitem df col_rain (int_of_bool (str_in ame (ctx_weather ctx)));
          df = setitem df col_snow (int_of_bool (str_in yuki (ctx_weather ctx)))
      in df)"

text \<open>
  \<^verbatim>\<open>xgb.DMatrix(df_count[count_cols])\<close> of line 125 and
  \<^verbatim>\<open>xgb.DMatrix(df_multi[multi_cols])\<close> of line 142: the matrix handed to the
  boosters.
\<close>

definition select_matrix :: "frame \<Rightarrow> pystr list \<Rightarrow> error + frame" where
  "select_matrix df cols = (case getitem df cols of Inl e \<Rightarrow> Inl e | Inr sel \<Rightarrow> DMatrix sel)"

definition dcount_of :: "models \<Rightarrow> day_context \<Rightarrow> timestamp \<Rightarrow> int list \<Rightarrow> error + frame" where
  "dcount_of M ctx ts lgs =
     select_matrix (build_df_count (count_cols M) ctx ts lgs) (count_cols M)"

definition dmulti_of :: "models \<Rightarrow> day_context \<Rightarrow> timestamp \<Rightarrow> int \<Rightarrow> int \<Rightarrow> error + frame" where
  "dmulti_of M ctx ts reception q =
     select_matrix (build_df_multi (multi_cols M) ctx ts reception q) (multi_cols M)"

subsection \<open>The loop over the slots (lines 107 to 155)\<close>

text \<open>
  The body of the loop for one timestamp. Every call that can raise is a case: an
  error ends the run there, as the exception does.
\<close>

definition slot_body :: "models \<Rightarrow> day_context \<Rightarrow> loop_state \<Rightarrow> timestamp \<Rightarrow> error + loop_state" where
  "slot_body M ctx st ts =
     (case dcount_of M ctx ts (lags st) of
        Inl e \<Rightarrow> Inl e
      | Inr dcount \<Rightarrow>
     (case count_model M dcount of
        Inl e \<Rightarrow> Inl e
      | Inr raw_count \<Rightarrow>
     (let reception = round_clamp raw_count
      in case dmulti_of M ctx ts reception (queue_at_start st) of
        Inl e \<Rightarrow> Inl e
      | Inr dmulti \<Rightarrow>
     (case queue_model M dmulti of
        Inl e \<Rightarrow> Inl e
      | Inr raw_queue \<Rightarrow>
     (case waittime_model M dmulti of
        Inl e \<Rightarrow> Inl e
      | Inr raw_wait \<Rightarrow>
     (let queue_pred = round_clamp raw_queue;
          wait_pred = round_clamp raw_wait
      in Inr \<lparr>results = results st @
                 [\<lparr>time_label = strftime_HM ts, predicted_arrivals = reception,
                   predicted_queue = queue_pred, predicted_wait_minutes = wait_pred\<rparr>],
              lags = reception # take 2 (lags st),
              queue_at_start = queue_pred\<rparr>))))))"

fun simulate_slots :: "models \<Rightarrow> day_context \<Rightarrow> loop_state \<Rightarrow> timestamp list \<Rightarrow> error + loop_state" where
  "simulate_slots M ctx st [] = Inr st"
| "simulate_slots M ctx st (ts # rest) =
     (case slot_body M ctx st ts of
        Inl e \<Rightarrow> Inl e
      | Inr st' \<Rightarrow> simulate_slots M ctx st' rest)"

subsection \<open>The prediction run (lines 79 to 157)\<close>

definition day_context_of :: "(date \<Rightarrow> bool) \<Rightarrow> date \<Rightarrow> int \<Rightarrow> pystr \<Rightarrow> error + day_context" where
  "day_context_of jp target_date total_patients weather =
     (let ih = is_holiday jp target_date
      in case is_prev_holiday jp target_date of
           Inl e \<Rightarrow> Inl e
         | Inr iph \<Rightarrow>
             Inr \<lparr>ctx_is_holiday = ih, ctx_is_prev_holiday = iph,
                  ctx_total_patients = total_patients, ctx_weather = weather\<rparr>)"

text \<open>
  \<open>run_slots n\<close> is the run stopped after its first \<open>n\<close> slots, with the state
  of the loop at that point; \<open>run\<close> is the whole run and returns
  \<^verbatim>\<open>results\<close>, the rows of \<^verbatim>\<open>result_df\<close>.
\<close>

definition run_slots ::
  "nat \<Rightarrow> (date \<Rightarrow> bool) \<Rightarrow> models \<Rightarrow> date \<Rightarrow> int \<Rightarrow> pystr \<Rightarrow> error + loop_state" where
  "run_slots n jp M target_date total_patients weather =
     (case day_context_of jp target_date total_patients weather of
        Inl e \<Rightarrow> Inl e
      | Inr ctx \<Rightarrow> simulate_slots M ctx init_state (take n (time_slots target_date)))"

definition run ::
  "(date \<Rightarrow> bool) \<Rightarrow> models \<Rightarrow> date \<Rightarrow> int \<Rightarrow> pystr \<Rightarrow> error + slot_result list" where
  "run jp M target_date total_patients weather =
     (case day_context_of jp target_date total_patients weather of
        Inl e \<Rightarrow> Inl e
      | Inr ctx \<Rightarrow>
          (case simulate_slots M ctx init_state (time_slots target_date) of
             Inl e \<Rightarrow> Inl e
           | Inr st \<Rightarrow> Inr (results st)))"

subsection \<open>What the two matrices contain\<close>

text \<open>
  The frame built for a column list \<open>cols\<close> keeps one shape through every
  assignment: the columns of \<open>cols\<close> in order, each holding the value \<open>f\<close>
  gives its name, followed by columns whose names are not in \<open>cols\<close> (the
  ones an assignment to a missing name appended).
\<close>

definition shaped :: "pystr list \<Rightarrow> (pystr \<Rightarrow> int) \<Rightarrow> frame \<Rightarrow> bool" where
  "shaped cols f df =
     (\<exists>ex. df = map (\<lambda>c. (c, f c)) cols @ ex \<and> set (columns ex) \<inter> set cols = {})"

text \<open>The assignments of the source in their order, as updates of the values by name.\<close>

definition assign_lags :: "(nat \<times> int) list \<Rightarrow> (pystr \<Rightarrow> int) \<Rightarrow> pystr \<Rightarrow> int" where
  "assign_lags ils f = fold (\<lambda>(i, lag) g. g(lag_col i := lag)) ils f"

definition count_fields :: "day_context \<Rightarrow> timestamp \<Rightarrow> int list \<Rightarrow> pystr \<Rightarrow> int" where
  "count_fields ctx ts lgs =
     assign_lags (enumerate 0 lgs)
       ((\<lambda>_. 0)
        (col_hour := int (hour ts),
         col_minute := int (minute ts),
         col_is_holiday := int_of_bool (ctx_is_holiday ctx),
         col_total := ctx_total_patients ctx,
         col_prev_holiday := int_of_bool (ctx_is_prev_holiday ctx),
         col_rain := int_of_bool (str_in ame (ctx_weather ctx)),
         col_snow := int_of_bool (str_in yuki (ctx_weather ctx))))"

definition multi_fields :: "day_context \<Rightarrow> timestamp \<Rightarrow> int \<Rightarrow> int \<Rightarrow> pystr \<Rightarrow> int" where
  "multi_fields ctx ts reception q =
     (\<lambda>_. 0)
     (col_hour := int (hour ts),
      col_minute := int (minute ts),
      col_reception := reception,
      col_queue_at_start := q,
      col_is_holiday := int_of_bool (ctx_is_holiday ctx),
      col_total := ctx_total_patients ctx,
      col_prev_holiday := int_of_bool (ctx_is_prev_holiday ctx),
      col_rain := int_of_bool (str_in ame (ctx_weather ctx)),
      col_snow := int_of_bool (str_in yuki (ctx_weather ctx)))"

text \<open>The names the two builders assign, given the number of lags.\<close>

definition count_assigned :: "nat \<Rightarrow> pystr list" where
  "count_assigned n =
     [col_hour, col_minute, col_is_holiday, col_total, col_prev_holiday, col_rain, col_snow]
     @ map lag_col [0..<n]"

definition multi_assigned :: "pystr list" where
  "multi_assigned =
     [col_hour, col_minute, col_reception, col_queue_at_start, col_is_holiday, col_total,
      col_prev_holiday, col_rain, col_snow]"

subsection \<open>A concrete run\<close>

text \<open>
  Inputs on which the statements below are exercised: Tuesday 2024-01-09, no public
  holiday, rain, 1200 patients; an arrival scorer that always answers 7.6, a waiting-time
  scorer that always answers -2.4 and a queue scorer that answers the queue at the start
  of the slot plus 1.5 (0 when its matrix has no such field).
\<close>

definition example_models :: models where
  "example_models =
     \<lparr>count_model = (\<lambda>v. Inr (38 / 5)),
      waittime_model = (\<lambda>v. Inr (- 12 / 5)),
      queue_model =
        (\<lambda>v. case field v col_queue_at_start of
                None \<Rightarrow> Inr 0
              | Some q \<Rightarrow> Inr (of_int q + 3 / 2)),
      count_cols = [col_hour, col_minute, col_rain, lag_col 0, lag_col 2, ascii ''dow''],
      multi_cols = [col_queue_at_start, col_reception, col_snow, col_rain, ascii ''dow'']\<rparr>"

definition example_date :: date where
  "example_date = \<lparr>year = 2024, month = 1, day = 9\<rparr>"

definition no_holiday :: "date \<Rightarrow> bool" where
  "no_holiday d = False"

definition example_context :: day_context where
  "example_context =
     \<lparr>ctx_is_holiday = False, ctx_is_prev_holiday = False,
      ctx_total_patients = 1200, ctx_weather = ame\<rparr>"

text \<open>The minute of the day that a label \<^verbatim>\<open>HH:MM\<close> denotes.\<close>

definition label_minutes :: "pystr \<Rightarrow> nat" where
  "label_minutes l =
     ((l ! 0 - 48) * 10 + (l ! 1 - 48)) * 60 + ((l ! 3 - 48) * 10 + (l ! 4 - 48))"

text \<open>The report of that run: 8 arrivals in every slot, a queue growing by 2, no wait.\<close>

definition example_report :: "slot_result list" where
  "example_report =
     [\<lparr>time_label = ascii ''08:00'', predicted_arrivals = 8, predicted_queue = 2, predicted_wait_minutes = 0\<rparr>,
      \<lparr>time_label = ascii ''08:30'', predicted_arrivals = 8, predicted_queue = 4, predicted_wait_minutes = 0\<rparr>,
      \<lparr>time_label = ascii ''09:00'', predicted_arrivals = 8, predicted_queue = 6, predicted_wait_minutes = 0\<rparr>,
      \<lparr>time_label = ascii ''09:30'', predicted_arrivals = 8, predicted_queue = 8, predicted_wait_minutes = 0\<rparr>,
      \<lparr>time_label = ascii ''10:00'', predicted_arrivals = 8, predicted_queue = 10, predicted_wait_minutes = 0\<rparr>,
      \<lparr>time_label = ascii ''10:30'', predicted_arrivals = 8, predicted_queue = 12, predicted_wait_minutes = 0\<rparr>,
      \<lparr>time_label = ascii ''11:00'', predicted_arrivals = 8, predicted_queue = 14, predicted_wait_minutes = 0\<rparr>,
      \<lparr>time_label = ascii ''11:30'', predicted_arrivals = 8, predicted_queue = 16, predicted_wait_minutes = 0\<rparr>,
      \<lparr>time_label = ascii ''12:00'', predicted_arrivals = 8, predicted_queue = 18, predicted_wait_minutes = 0\<rparr>,
      \<lparr>time_label = ascii ''12:30'', predicted_arrivals = 8, predicted_queue = 20, predicted_wait_minutes = 0\<rparr>,
      \<lparr>time_label = ascii ''13:00'', predicted_arrivals = 8, predicted_queue = 22, predicted_wait_minutes = 0\<rparr>,
      \<lparr>time_label = ascii ''13:30'', predicted_arrivals = 8, predicted_queue = 24, predicted_wait_minutes = 0\<rparr>,
      \<lparr>time_label = ascii ''14:00'', predicted_arrivals = 8, predicted_queue = 26, predicted_wait_minutes = 0\<rparr>,
      \<lparr>time_label = ascii ''14:30'', predicted_arrivals = 8, predicted_queue = 28, predicted_wait_minutes = 0\<rparr>,
      \<lparr>time_label = ascii ''15:00'', predicted_arrivals = 8, predicted_queue = 30, predicted_wait_minutes = 0\<rparr>,
      \<lparr>time_label = ascii ''15:30'', predicted_arrivals = 8, predicted_queue = 32, predicted_wait_minutes = 0\<rparr>,
      \<lparr>time_label = ascii ''16:00'', predicted_arrivals = 8, predicted_queue = 34, predicted_wait_minutes = 0\<rparr>,
      \<lparr>time_label = ascii ''16:30'', predicted_arrivals = 8, predicted_queue = 36, predicted_wait_minutes = 0\<rparr>,
      \<lparr>time_label = ascii ''17:00'', predicted_arrivals = 8, predicted_queue = 38, predicted_wait_minutes = 0\<rparr>,
      \<lparr>time_label = ascii ''17:30'', predicted_arrivals = 8, predicted_queue = 40, predicted_wait_minutes = 0\<rparr>,
      \<lparr>time_label = ascii ''18:00'', predicted_arrivals = 8, predicted_queue = 42, predicted_wait_minutes = 0\<rparr>]"

text \<open>The state of the loop after the first slot of that run.\<close>

definition example_state1 :: loop_state where
  "example_state1 =
     \<lparr>results = [\<lparr>time_label = ascii ''08:00'', predicted_arrivals = 8,
                   predicted_queue = 2, predicted_wait_minutes = 0\<rparr>],
      lags = [8, 0, 0], queue_at_start = 2\<rparr>"

text \<open>The second slot of that day.\<close>

definition example_ts :: timestamp where
  "example_ts = \<lparr>ts_date = example_date, hour = 8, minute = 30\<rparr>"

text \<open>
  Models whose two schemas name neither \<open>hour\<close> nor \<open>minute\<close>, with scorers that
  always answer.
\<close>

definition lenient_models :: models where
  "lenient_models =
     \<lparr>count_model = (\<lambda>v. Inr (38 / 5)),
      waittime_model = (\<lambda>v. Inr (- 12 / 5)),
      queue_model = (\<lambda>v. Inr (3 / 2)),
      count_cols = [col_is_holiday, lag_col 0],
      multi_cols = [col_reception, ascii ''dow'']\<rparr>"


text \<open>What two runs that differ in the waiting-time scorer only have in common.\<close>

definition same_flow :: "loop_state \<Rightarrow> loop_state \<Rightarrow> bool" where
  "same_flow s t =
     (lags s = lags t \<and> queue_at_start s = queue_at_start t
      \<and> map time_label (results s) = map time_label (results t)
      \<and> map predicted_arrivals (results s) = map predicted_arrivals (results t)
      \<and> map predicted_queue (results s) = map predicted_queue (results t))"

text \<open>The models of the concrete run with a waiting-time scorer that always answers 100.\<close>

definition slow_models :: models where
  "slow_models = example_models\<lparr>waittime_model := (\<lambda>v. Inr 100)\<rparr>"

section \<open>Lemmas\<close>

subsection \<open>Frames keep their shape\<close>

lemma shaped_DataFrame: "shaped cols (\<lambda>_. v) (DataFrame v cols)"
  by (simp add: shaped_def DataFrame_def columns_def)

lemma shaped_subset: "shaped cols f df \<Longrightarrow> set cols \<subseteq> set (columns df)"
proof -
  assume "shaped cols f df"
  then obtain ex where "df = map (\<lambda>c. (c, f c)) cols @ ex"
    by (auto simp: shaped_def)
  then have "columns df = cols @ columns ex"
    by (simp add: columns_def o_def)
  then show ?thesis by simp
qed

lemma shaped_cong:
  assumes "shaped cols f df" and "\<And>c. c \<in> set cols \<Longrightarrow> f c = g c"
  shows "shaped cols g df"
proof -
  have "map (\<lambda>c. (c, f c)) cols = map (\<lambda>c. (c, g c)) cols"
    using assms(2) by simp
  with assms(1) show ?thesis by (simp add: shaped_def)
qed

lemma map_upd_in:
  "map (\<lambda>(k, x). if k = c then (k, v) else (k, x)) (map (\<lambda>c. (c, f c)) cols)
     = map (\<lambda>k. (k, (f(c := v)) k)) cols"
  by (induction cols) auto

lemma map_upd_columns:
  "columns (map (\<lambda>(k, x). if k = c then (k, v) else (k, x)) ex) = columns ex"
  by (induction ex) (auto simp: columns_def)

lemma shaped_setitem:
  assumes "shaped cols f df"
  shows "shaped cols (f(c := v)) (setitem df c v)"
proof -
  from assms obtain ex where df: "df = map (\<lambda>c. (c, f c)) cols @ ex"
    and dj: "set (columns ex) \<inter> set cols = {}"
    by (auto simp: shaped_def)
  show ?thesis
  proof (cases "c \<in> set (columns df)")
    case True
    let ?ex = "map (\<lambda>(k, x). if k = c then (k, v) else (k, x)) ex"
    have "setitem df c v = map (\<lambda>k. (k, (f(c := v)) k)) cols @ ?ex"
      using True by (simp add: setitem_def df map_upd_in)
    moreover have "set (columns ?ex) \<inter> set cols = {}"
      using dj by (simp only: map_upd_columns)
    ultimately show ?thesis
      unfolding shaped_def by (intro exI [of _ ?ex] conjI)
  next
    case False
    then have notin: "c \<notin> set cols"
      using shaped_subset [OF assms] by auto
    have "map (\<lambda>k. (k, f k)) cols = map (\<lambda>k. (k, (f(c := v)) k)) cols"
      using notin by simp
    then have "setitem df c v = map (\<lambda>k. (k, (f(c := v)) k)) cols @ (ex @ [(c, v)])"
      using False by (simp add: setitem_def df)
    moreover have "set (columns (ex @ [(c, v)])) \<inter> set cols = {}"
      using dj notin by (auto simp: columns_def)
    ultimately show ?thesis
      unfolding shaped_def by (intro exI [of _ "ex @ [(c, v)]"] conjI)
  qed
qed

lemma shaped_set_lags:
  "shaped cols f df \<Longrightarrow> shaped cols (assign_lags ils f) (set_lags df ils)"
proof (induction ils arbitrary: f df)
  case Nil
  then show ?case by (simp add: assign_lags_def)
next
  case (Cons a ils)
  obtain i lag where a: "a = (i, lag)" by (cases a)
  let ?df = "if lag_col i \<in> set (columns df) then setitem df (lag_col i) lag else df"
  have step: "shaped cols (f(lag_col i := lag)) ?df"
  proof (cases "lag_col i \<in> set (columns df)")
    case True
    then show ?thesis using shaped_setitem [OF Cons.prems] by simp
  next
    case False
    then have "lag_col i \<notin> set cols" using shaped_subset [OF Cons.prems] by auto
    then have "\<And>c. c \<in> set cols \<Longrightarrow> f c = (f(lag_col i := lag)) c" by auto
    then have "shaped cols (f(lag_col i := lag)) df"
      using shaped_cong [of cols f df "f(lag_col i := lag)"] Cons.prems by blast
    with False show ?thesis by simp
  qed
  have "shaped cols (assign_lags ils (f(lag_col i := lag))) (set_lags ?df ils)"
    using step by (rule Cons.IH)
  moreover have "assign_lags (a # ils) f = assign_lags ils (f(lag_col i := lag))"
    by (simp add: a assign_lags_def)
  moreover have "set_lags df (a # ils) = set_lags ?df ils"
    by (simp add: a Let_def)
  ultimately show ?case by simp
qed

lemma filter_name_distinct:
  "distinct xs \<Longrightarrow> c \<in> set xs \<Longrightarrow>
     filter (\<lambda>kv. fst kv = c) (map (\<lambda>c. (c, f c)) xs) = [(c, f c)]"
  by (induction xs) (auto simp: filter_empty_conv)

lemma filter_name_extra:
  "c \<notin> set (columns ex) \<Longrightarrow> filter (\<lambda>kv. fst kv = c) ex = []"
  by (auto simp: columns_def filter_empty_conv)

lemma getitem_shaped_distinct:
  assumes "shaped cols f df" and "distinct cols"
  shows "getitem df cols = Inr (map (\<lambda>c. (c, f c)) cols)"
proof -
  from assms obtain ex where df: "df = map (\<lambda>c. (c, f c)) cols @ ex"
    and dj: "set (columns ex) \<inter> set cols = {}"
    by (auto simp: shaped_def)
  have all: "list_all (\<lambda>c. c \<in> set (columns df)) cols"
    using shaped_subset [OF assms(1)] by (auto simp: list_all_iff)
  have "\<And>c. c \<in> set cols \<Longrightarrow> filter (\<lambda>kv. fst kv = c) df = [(c, f c)]"
  proof -
    fix c assume c: "c \<in> set cols"
    then have "c \<notin> set (columns ex)" using dj by auto
    then show "filter (\<lambda>kv. fst kv = c) df = [(c, f c)]"
      using c assms(2) by (simp add: df filter_name_distinct filter_name_extra)
  qed
  then have "map (\<lambda>c. filter (\<lambda>kv. fst kv = c) df) cols = map (\<lambda>c. [(c, f c)]) cols"
    by simp
  then have "concat (map (\<lambda>c. filter (\<lambda>kv. fst kv = c) df) cols) = map (\<lambda>c. (c, f c)) cols"
    by (simp only: concat_map_singleton)
  with all show ?thesis by (simp add: getitem_def)
qed

lemma distinct_from_filters:
  "(\<And>c. c \<in> set xs \<Longrightarrow> distinct (filter (\<lambda>k. k = c) xs)) \<Longrightarrow> distinct xs"
proof (induction xs)
  case Nil
  then show ?case by simp
next
  case (Cons x xs)
  have "distinct (filter (\<lambda>k. k = x) (x # xs))" using Cons.prems [of x] by simp
  then have "x \<notin> set xs" by auto
  moreover have "distinct xs"
  proof (rule Cons.IH)
    fix c assume "c \<in> set xs"
    then have "distinct (filter (\<lambda>k. k = c) (x # xs))" using Cons.prems [of c] by simp
    then show "distinct (filter (\<lambda>k. k = c) xs)" by (auto split: if_splits)
  qed
  ultimately show ?case by simp
qed

lemma getitem_shaped_columns:
  assumes "shaped cols f df"
  shows "\<exists>sel. getitem df cols = Inr sel
           \<and> columns sel = concat (map (\<lambda>c. filter (\<lambda>k. k = c) cols) cols)"
proof -
  from assms obtain ex where df: "df = map (\<lambda>c. (c, f c)) cols @ ex"
    and dj: "set (columns ex) \<inter> set cols = {}"
    by (auto simp: shaped_def)
  have all: "list_all (\<lambda>c. c \<in> set (columns df)) cols"
    using shaped_subset [OF assms(1)] by (auto simp: list_all_iff)
  have cdf: "columns df = cols @ columns ex"
    by (simp add: df columns_def o_def)
  have one: "\<And>c. c \<in> set cols \<Longrightarrow>
      columns (filter (\<lambda>kv. fst kv = c) df) = filter (\<lambda>k. k = c) cols"
  proof -
    fix c assume c: "c \<in> set cols"
    have "columns (filter (\<lambda>kv. fst kv = c) df) = filter (\<lambda>k. k = c) (columns df)"
      by (simp add: columns_def filter_map o_def)
    also have "\<dots> = filter (\<lambda>k. k = c) cols"
      using dj c by (auto simp: cdf filter_empty_conv)
    finally show "columns (filter (\<lambda>kv. fst kv = c) df) = filter (\<lambda>k. k = c) cols" .
  qed
  have "columns (concat (map (\<lambda>c. filter (\<lambda>kv. fst kv = c) df) cols))
      = concat (map (\<lambda>c. columns (filter (\<lambda>kv. fst kv = c) df)) cols)"
    by (simp add: columns_def map_concat o_def)
  also have "\<dots> = concat (map (\<lambda>c. filter (\<lambda>k. k = c) cols) cols)"
    using one by (simp cong: map_cong)
  finally show ?thesis using all by (simp add: getitem_def)
qed

lemma selected_names_distinct:
  "distinct (concat (map (\<lambda>c. filter (\<lambda>k. k = c) cols) cols)) = distinct cols"
proof
  assume d: "distinct (concat (map (\<lambda>c. filter (\<lambda>k. k = c) cols) cols))"
  show "distinct cols"
  proof (rule distinct_from_filters)
    fix c assume "c \<in> set cols"
    then show "distinct (filter (\<lambda>k. k = c) cols)"
      using d by (auto simp: distinct_concat_iff)
  qed
next
  assume d: "distinct cols"
  have "\<And>c. c \<in> set cols \<Longrightarrow> filter (\<lambda>k. k = c) cols = [c]"
    using d by (induction cols) (auto simp: filter_empty_conv)
  then have "map (\<lambda>c. filter (\<lambda>k. k = c) cols) cols = map (\<lambda>c. [c]) cols"
    by simp
  then have "concat (map (\<lambda>c. filter (\<lambda>k. k = c) cols) cols) = cols"
    by (simp only: concat_map_singleton) simp
  then show "distinct (concat (map (\<lambda>c. filter (\<lambda>k. k = c) cols) cols))"
    using d by simp
qed

lemma selected_names_set:
  "set (concat (map (\<lambda>c. filter (\<lambda>k. k = c) cols) cols)) = set cols"
  by auto

lemma valid_feature_names_selected:
  "valid_feature_names (concat (map (\<lambda>c. filter (\<lambda>k. k = c) cols) cols))
     = valid_feature_names cols"
  unfolding valid_feature_names_def list_ex_iff [of _ "concat _"] list_ex_iff [of _ cols]
    selected_names_distinct selected_names_set ..

lemma select_matrix_shaped:
  assumes "shaped cols f df"
  shows "select_matrix df cols =
     (if valid_feature_names cols then Inr (map (\<lambda>c. (c, f c)) cols) else Inl ValueError)"
proof (cases "valid_feature_names cols")
  case True
  then have "distinct cols" by (simp add: valid_feature_names_def)
  from getitem_shaped_distinct [OF assms this] True show ?thesis
    by (simp add: select_matrix_def DMatrix_def columns_def o_def)
next
  case False
  from getitem_shaped_columns [OF assms] obtain sel where
    sel: "getitem df cols = Inr sel"
      "columns sel = concat (map (\<lambda>c. filter (\<lambda>k. k = c) cols) cols)"
    by blast
  have "\<not> valid_feature_names (columns sel)"
    using False by (simp add: sel(2) valid_feature_names_selected)
  then have "DMatrix sel = Inl ValueError"
    by (simp add: DMatrix_def)
  then show ?thesis
    using sel(1) False by (simp add: select_matrix_def)
qed

subsection \<open>The matrices in closed form\<close>

lemma shaped_build_count: "shaped cols (count_fields ctx ts lgs) (build_df_count cols ctx ts lgs)"
  unfolding build_df_count_def count_fields_def Let_def
  by (intro shaped_set_lags shaped_setitem shaped_DataFrame)

lemma shaped_build_multi: "shaped cols (multi_fields ctx ts r q) (build_df_multi cols ctx ts r q)"
  unfolding build_df_multi_def multi_fields_def Let_def
  by (intro shaped_setitem shaped_DataFrame)

lemma dcount_of_eq:
  "dcount_of M ctx ts lgs =
     (if valid_feature_names (count_cols M)
      then Inr (map (\<lambda>c. (c, count_fields ctx ts lgs c)) (count_cols M))
      else Inl ValueError)"
  unfolding dcount_of_def by (rule select_matrix_shaped [OF shaped_build_count])

lemma dmulti_of_eq:
  "dmulti_of M ctx ts r q =
     (if valid_feature_names (multi_cols M)
      then Inr (map (\<lambda>c. (c, multi_fields ctx ts r q c)) (multi_cols M))
      else Inl ValueError)"
  unfolding dmulti_of_def by (rule select_matrix_shaped [OF shaped_build_multi])

lemma fixed_names_distinct:
  "distinct [col_hour, col_minute, col_reception, col_queue_at_start, col_is_holiday, col_total,
      col_prev_holiday, col_rain, col_snow]"
  by (simp add: col_hour_def col_minute_def col_reception_def col_queue_at_start_def
      col_is_holiday_def col_total_def col_prev_holiday_def col_rain_def col_snow_def
      ame_def yuki_def furagu_def ascii_def)

lemma hd_lag_col: "hd (lag_col i) = 108"
  by (simp add: lag_col_def ascii_def)

lemma lag_col_not_fixed:
  "lag_col i \<notin> set [col_hour, col_minute, col_reception, col_queue_at_start, col_is_holiday, col_total,
      col_prev_holiday, col_rain, col_snow]"
proof
  assume "lag_col i \<in> set [col_hour, col_minute, col_reception, col_queue_at_start,
      col_is_holiday, col_total, col_prev_holiday, col_rain, col_snow]"
  then have "\<exists>c \<in> set [col_hour, col_minute, col_reception, col_queue_at_start,
      col_is_holiday, col_total, col_prev_holiday, col_rain, col_snow]. hd c = 108"
    using hd_lag_col by metis
  then show False
    by (simp add: col_hour_def col_minute_def col_reception_def col_queue_at_start_def
      col_is_holiday_def col_total_def col_prev_holiday_def col_rain_def col_snow_def
      ame_def yuki_def furagu_def ascii_def)
qed

lemma lag_col_values:
  "lag_col 0 = ascii ''lag_30min''" "lag_col 1 = ascii ''lag_60min''"
  "lag_col 2 = ascii ''lag_90min''"
  by (simp_all add: lag_col_def ascii_def digit_def)

lemma assign_lags_other:
  "c \<notin> lag_col ` fst ` set ils \<Longrightarrow> assign_lags ils f c = f c"
  unfolding assign_lags_def
  by (induction ils arbitrary: f) auto

subsection \<open>The loop, slot by slot\<close>

lemma slot_body_Inr:
  assumes "slot_body M ctx st ts = Inr st'"
  obtains dcount rc dmulti rq rw where
    "dcount_of M ctx ts (lags st) = Inr dcount"
    "count_model M dcount = Inr rc"
    "dmulti_of M ctx ts (round_clamp rc) (queue_at_start st) = Inr dmulti"
    "queue_model M dmulti = Inr rq"
    "waittime_model M dmulti = Inr rw"
    "st' = \<lparr>results = results st @
                 [\<lparr>time_label = strftime_HM ts, predicted_arrivals = round_clamp rc,
                   predicted_queue = round_clamp rq, predicted_wait_minutes = round_clamp rw\<rparr>],
              lags = round_clamp rc # take 2 (lags st),
              queue_at_start = round_clamp rq\<rparr>"
  using assms unfolding slot_body_def Let_def
  by (auto split: sum.splits)

lemma simulate_slots_append:
  "simulate_slots M ctx st (xs @ ys) =
     (case simulate_slots M ctx st xs of
        Inl e \<Rightarrow> Inl e
      | Inr st' \<Rightarrow> simulate_slots M ctx st' ys)"
  by (induction xs arbitrary: st) (auto split: sum.splits)

lemma slot_body_results:
  assumes "slot_body M ctx st ts = Inr st'"
  shows "\<exists>r. results st' = results st @ [r] \<and> time_label r = strftime_HM ts"
  using assms by (elim slot_body_Inr) simp

lemma simulate_slots_results:
  "simulate_slots M ctx st tss = Inr st' \<Longrightarrow>
     \<exists>rs. results st' = results st @ rs \<and> map time_label rs = map strftime_HM tss"
proof (induction tss arbitrary: st)
  case Nil
  then show ?case by simp
next
  case (Cons ts tss)
  from Cons.prems obtain s1 where s1: "slot_body M ctx st ts = Inr s1"
    and rest: "simulate_slots M ctx s1 tss = Inr st'"
    by (auto split: sum.splits)
  from slot_body_results [OF s1] obtain r where
    r: "results s1 = results st @ [r]" "time_label r = strftime_HM ts" by blast
  from Cons.IH [OF rest] obtain rs where
    rs: "results st' = results s1 @ rs" "map time_label rs = map strftime_HM tss" by blast
  have "results st' = results st @ (r # rs)" using r rs by simp
  moreover have "map time_label (r # rs) = map strftime_HM (ts # tss)" using r rs by simp
  ultimately show ?case by blast
qed

lemma length_time_slots: "length (time_slots d) = 21"
  by (simp add: time_slots_def date_range_def replace_hm_def Timestamp_def minute_of_day_def)

lemma take_Suc_time_slots:
  "k < 21 \<Longrightarrow> take (Suc k) (time_slots d) = take k (time_slots d) @ [time_slots d ! k]"
  by (simp add: take_Suc_conv_app_nth length_time_slots)

lemma run_slots_Suc:
  assumes "day_context_of jp d tp w = Inr ctx" and "k < 21"
  shows "run_slots (Suc k) jp M d tp w =
     (case run_slots k jp M d tp w of
        Inl e \<Rightarrow> Inl e
      | Inr st \<Rightarrow> slot_body M ctx st (time_slots d ! k))"
  using assms
  by (simp add: run_slots_def take_Suc_time_slots simulate_slots_append split: sum.splits)

lemma run_slots_0:
  "day_context_of jp d tp w = Inr ctx \<Longrightarrow> run_slots 0 jp M d tp w = Inr init_state"
  by (simp add: run_slots_def)

lemma run_eq_run_slots:
  "run jp M d tp w =
     (case run_slots 21 jp M d tp w of Inl e \<Rightarrow> Inl e | Inr st \<Rightarrow> Inr (results st))"
  by (simp add: run_def run_slots_def length_time_slots split: sum.splits)

lemma run_slots_prefix:
  assumes "run_slots n jp M d tp w = Inr st" and "k \<le> n" and "n \<le> 21"
  shows "\<exists>sk. run_slots k jp M d tp w = Inr sk \<and> results sk = take k (results st)"
proof -
  from assms(1) obtain ctx where ctx: "day_context_of jp d tp w = Inr ctx"
    and sim: "simulate_slots M ctx init_state (take n (time_slots d)) = Inr st"
    by (auto simp: run_slots_def split: sum.splits)
  let ?xs = "take k (time_slots d)" and ?ys = "drop k (take n (time_slots d))"
  have split: "take n (time_slots d) = ?xs @ ?ys"
    using assms(2) by (metis append_take_drop_id min.absorb1 take_take)
  have "simulate_slots M ctx init_state (?xs @ ?ys) = Inr st"
    by (subst split [symmetric]) (rule sim)
  then obtain sk where sk: "simulate_slots M ctx init_state ?xs = Inr sk"
    and rest: "simulate_slots M ctx sk ?ys = Inr st"
    unfolding simulate_slots_append by (auto split: sum.splits)
  from simulate_slots_results [OF sk] obtain rs1 where
    rs1: "results sk = rs1" "map time_label rs1 = map strftime_HM ?xs"
    by (auto simp: init_state_def)
  from simulate_slots_results [OF rest] obtain rs2 where
    rs2: "results st = results sk @ rs2" by blast
  have "length rs1 = length ?xs" using rs1(2) by (metis length_map)
  then have "length rs1 = k" using assms(2,3) by (simp add: length_time_slots)
  then have "take k (results st) = results sk" using rs1(1) rs2 by simp
  moreover have "run_slots k jp M d tp w = Inr sk"
    using ctx sk by (simp add: run_slots_def)
  ultimately show ?thesis by simp
qed

lemma run_Inr:
  assumes "run jp M d tp w = Inr rep"
  obtains ctx st where "day_context_of jp d tp w = Inr ctx"
    "run_slots 21 jp M d tp w = Inr st" "results st = rep"
  using assms unfolding run_eq_run_slots
  by (auto simp: run_slots_def split: sum.splits)

lemma run_labels:
  assumes "run jp M d tp w = Inr rep"
  shows "map time_label rep = map strftime_HM (time_slots d)"
proof -
  from assms obtain ctx st where
    "simulate_slots M ctx init_state (time_slots d) = Inr st" "results st = rep"
    by (auto simp: run_def split: sum.splits)
  with simulate_slots_results [of M ctx init_state "time_slots d" st]
  show ?thesis by (auto simp: init_state_def)
qed

lemma run_length:
  assumes "run jp M d tp w = Inr rep"
  shows "length rep = 21"
  using run_labels [OF assms] length_time_slots [of d] by (metis length_map)

text \<open>The trace of slot k of a run that returns.\<close>

lemma run_slot:
  assumes "run jp M d tp w = Inr rep" and "k < 21"
  obtains ctx st st' where
    "day_context_of jp d tp w = Inr ctx"
    "run_slots k jp M d tp w = Inr st"
    "results st = take k rep"
    "slot_body M ctx st (time_slots d ! k) = Inr st'"
    "run_slots (Suc k) jp M d tp w = Inr st'"
    "results st' = take (Suc k) rep"
proof -
  from run_Inr [OF assms(1)] obtain ctx sf where ctx: "day_context_of jp d tp w = Inr ctx"
    and sf: "run_slots 21 jp M d tp w = Inr sf" "results sf = rep" by blast
  from run_slots_prefix [OF sf(1), of k] assms(2) obtain st where
    st: "run_slots k jp M d tp w = Inr st" "results st = take k rep"
    using sf(2) by auto
  from run_slots_prefix [OF sf(1), of "Suc k"] assms(2) obtain st' where
    st': "run_slots (Suc k) jp M d tp w = Inr st'" "results st' = take (Suc k) rep"
    using sf(2) by auto
  have body: "slot_body M ctx st (time_slots d ! k) = Inr st'"
    using run_slots_Suc [OF ctx assms(2), of M] st(1) st'(1) by simp
  show ?thesis using that [OF ctx st body st'] .
qed

lemma run_slots_lags_length:
  assumes "run_slots k jp M d tp w = Inr st" and "k \<le> 21"
  shows "length (lags st) = 3"
  using assms
proof (induction k arbitrary: st)
  case 0
  then show ?case by (auto simp: run_slots_def init_state_def split: sum.splits)
next
  case (Suc k)
  from Suc.prems(1) obtain ctx where ctx: "day_context_of jp d tp w = Inr ctx"
    by (auto simp: run_slots_def split: sum.splits)
  from Suc.prems obtain sk where sk: "run_slots k jp M d tp w = Inr sk"
    and body: "slot_body M ctx sk (time_slots d ! k) = Inr st"
    using run_slots_Suc [OF ctx, of k M] by (auto split: sum.splits)
  from Suc.IH [OF sk] Suc.prems have "length (lags sk) = 3" by simp
  with body show ?case by (elim slot_body_Inr) simp
qed

subsection \<open>Weekdays and time slots\<close>

lemma weekday_lt_7: "weekday d < 7"
  by (simp add: weekday_def)

lemma weekday_of_a_saturday: "weekday \<lparr>year = 2024, month = 1, day = 6\<rparr> = 5"
  by (simp add: weekday_def toordinal_def days_before_year_def days_before_month_def
      days_in_month_def is_leap_def Let_def upt_conv_Cons)

lemma time_slots_eval:
  "map minute_of_day (time_slots d) = map (\<lambda>k. 480 + 30 * k) [0..<21]"
  by (simp add: time_slots_def date_range_def replace_hm_def Timestamp_def minute_of_day_def Let_def)

lemma labels_eval:
  "map strftime_HM (time_slots d) =
     map ascii [''08:00'', ''08:30'', ''09:00'', ''09:30'', ''10:00'', ''10:30'', ''11:00'',
       ''11:30'', ''12:00'', ''12:30'', ''13:00'', ''13:30'', ''14:00'', ''14:30'', ''15:00'',
       ''15:30'', ''16:00'', ''16:30'', ''17:00'', ''17:30'', ''18:00'']"
  by (simp add: time_slots_def date_range_def replace_hm_def Timestamp_def minute_of_day_def Let_def
     strftime_HM_def two_digits_def digit_def ascii_def upt_conv_Cons)

subsection \<open>The concrete run, evaluated\<close>

lemmas name_defs = col_hour_def col_minute_def col_reception_def col_queue_at_start_def
      col_is_holiday_def col_total_def col_prev_holiday_def col_rain_def col_snow_def
      ame_def yuki_def furagu_def ascii_def lag_col_def digit_def

lemma example_day_context:
  "day_context_of no_holiday example_date 1200 ame = Inr example_context"
  by (simp add: day_context_of_def is_holiday_def is_prev_holiday_def sub_one_day_def
      example_date_def no_holiday_def example_context_def
      weekday_def toordinal_def days_before_year_def days_before_month_def
      days_in_month_def is_leap_def Let_def upt_conv_Cons)

lemma example_run:
  "run no_holiday example_models example_date 1200 ame = Inr example_report"
  unfolding example_report_def
  unfolding run_def example_day_context sum.case
  by (simp add: init_state_def example_context_def
      time_slots_def date_range_def replace_hm_def Timestamp_def minute_of_day_def
      slot_body_def dcount_of_eq dmulti_of_eq Let_def
      valid_feature_names_def forbidden_chars_def name_defs
      example_models_def field_def multi_fields_def round_clamp_def py_round_def
      strftime_HM_def two_digits_def upt_conv_Cons)

subsection \<open>Rounding\<close>

lemma py_round_cases:
  "py_round x = \<lfloor>x\<rfloor> \<and> x - of_int \<lfloor>x\<rfloor> \<le> 1 / 2
   \<or> py_round x = \<lfloor>x\<rfloor> + 1 \<and> 1 / 2 \<le> x - of_int \<lfloor>x\<rfloor>"
  by (auto simp: py_round_def Let_def)

lemma py_round_half: "\<bar>of_int (py_round x) - x\<bar> \<le> 1 / 2"
proof -
  have "of_int \<lfloor>x\<rfloor> \<le> x" "x < of_int \<lfloor>x\<rfloor> + 1" by linarith+
  with py_round_cases [of x] show ?thesis by auto
qed

lemma py_round_nearest: "\<bar>of_int (py_round x) - x\<bar> \<le> \<bar>of_int n - x\<bar>"
proof (cases "n = py_round x")
  case True
  then show ?thesis by simp
next
  case False
  then have "1 \<le> \<bar>n - py_round x\<bar>" by linarith
  then have "1 \<le> \<bar>real_of_int n - of_int (py_round x)\<bar>"
    by (metis of_int_1 of_int_abs of_int_diff of_int_le_iff)
  with py_round_half [of x] show ?thesis by linarith
qed

lemma round_clamp_nonneg: "0 \<le> round_clamp x"
  by (simp add: round_clamp_def)

lemma round_clamp_examples: "round_clamp (- 12 / 5) = 0" "round_clamp (38 / 5) = 8"
  by (simp_all add: round_clamp_def py_round_def Let_def)

subsection \<open>Fields of a matrix\<close>

lemma field_of_map:
  "field (map (\<lambda>c. (c, f c)) cols) c = (if c \<in> set cols then Some (f c) else None)"
  unfolding field_def by (induction cols) auto

lemma columns_of_map: "columns (map (\<lambda>c. (c, f c)) cols) = cols"
  by (simp add: columns_def o_def)

lemma dcount_of_Inr:
  assumes "dcount_of M ctx ts lgs = Inr v"
  shows "v = map (\<lambda>c. (c, count_fields ctx ts lgs c)) (count_cols M)"
    and "valid_feature_names (count_cols M)"
  using assms unfolding dcount_of_eq by (auto split: if_splits)

lemma dmulti_of_Inr:
  assumes "dmulti_of M ctx ts r q = Inr v"
  shows "v = map (\<lambda>c. (c, multi_fields ctx ts r q c)) (multi_cols M)"
    and "valid_feature_names (multi_cols M)"
  using assms unfolding dmulti_of_eq by (auto split: if_splits)

lemmas fixed_neq = fixed_names_distinct [simplified]

lemma multi_fields_values:
  "multi_fields ctx ts r q col_reception = r"
  "multi_fields ctx ts r q col_queue_at_start = q"
  "multi_fields ctx ts r q col_rain = int_of_bool (str_in ame (ctx_weather ctx))"
  "multi_fields ctx ts r q col_snow = int_of_bool (str_in yuki (ctx_weather ctx))"
  "multi_fields ctx ts r q col_hour = int (hour ts)"
  "multi_fields ctx ts r q col_minute = int (minute ts)"
  using fixed_names_distinct by (simp_all add: multi_fields_def)

lemma count_fields_fixed:
  assumes "c \<in> set [col_hour, col_minute, col_is_holiday, col_total, col_prev_holiday,
      col_rain, col_snow]"
  shows "count_fields ctx ts lgs c =
     ((\<lambda>_. 0)
        (col_hour := int (hour ts),
         col_minute := int (minute ts),
         col_is_holiday := int_of_bool (ctx_is_holiday ctx),
         col_total := ctx_total_patients ctx,
         col_prev_holiday := int_of_bool (ctx_is_prev_holiday ctx),
         col_rain := int_of_bool (str_in ame (ctx_weather ctx)),
         col_snow := int_of_bool (str_in yuki (ctx_weather ctx)))) c"
proof -
  have "c \<notin> lag_col ` fst ` set (enumerate 0 lgs)"
    using assms lag_col_not_fixed by auto
  then show ?thesis
    unfolding count_fields_def by (rule assign_lags_other)
qed

lemma count_fields_values:
  "count_fields ctx ts lgs col_rain = int_of_bool (str_in ame (ctx_weather ctx))"
  "count_fields ctx ts lgs col_snow = int_of_bool (str_in yuki (ctx_weather ctx))"
  "count_fields ctx ts lgs col_hour = int (hour ts)"
  "count_fields ctx ts lgs col_minute = int (minute ts)"
  using fixed_names_distinct by (simp_all add: count_fields_fixed)

lemma count_fields_unassigned:
  assumes "c \<notin> set (count_assigned (length lgs))"
  shows "count_fields ctx ts lgs c = 0"
proof -
  have "fst ` set (enumerate 0 lgs) = set (map fst (enumerate 0 lgs))"
    by (simp only: set_map)
  then have "fst ` set (enumerate 0 lgs) = {0..<length lgs}"
    by simp
  then have "c \<notin> lag_col ` fst ` set (enumerate 0 lgs)"
    using assms by (auto simp: count_assigned_def)
  then have "count_fields ctx ts lgs c = ((\<lambda>_. 0)
        (col_hour := int (hour ts),
         col_minute := int (minute ts),
         col_is_holiday := int_of_bool (ctx_is_holiday ctx),
         col_total := ctx_total_patients ctx,
         col_prev_holiday := int_of_bool (ctx_is_prev_holiday ctx),
         col_rain := int_of_bool (str_in ame (ctx_weather ctx)),
         col_snow := int_of_bool (str_in yuki (ctx_weather ctx)))) c"
    unfolding count_fields_def by (rule assign_lags_other)
  then show ?thesis using assms by (simp add: count_assigned_def)
qed

lemma multi_fields_unassigned:
  assumes "c \<notin> set multi_assigned"
  shows "multi_fields ctx ts r q c = 0"
  using assms by (simp add: multi_assigned_def multi_fields_def)

subsection \<open>The state after a slot\<close>

lemma slot_body_state:
  assumes "slot_body M ctx st ts = Inr st'"
  shows "results st' \<noteq> []"
    and "queue_at_start st' = predicted_queue (last (results st'))"
    and "lags st' = predicted_arrivals (last (results st')) # take 2 (lags st)"
  using assms by (elim slot_body_Inr; simp)+

lemma nth_of_take_Suc:
  assumes "results st' = take (Suc k) rep" and "k < length rep"
  shows "last (results st') = rep ! k"
  using assms by (simp add: take_Suc_conv_app_nth)

lemma example_run_slots_1:
  "run_slots 1 no_holiday example_models example_date 1200 ame = Inr example_state1"
proof -
  have "run_slots (Suc 0) no_holiday example_models example_date 1200 ame
      = slot_body example_models example_context init_state (time_slots example_date ! 0)"
    using run_slots_Suc [OF example_day_context, of 0 example_models]
      run_slots_0 [OF example_day_context, of example_models] by simp
  also have "\<dots> = Inr example_state1"
    by (simp add: init_state_def example_context_def example_state1_def
      time_slots_def date_range_def replace_hm_def Timestamp_def minute_of_day_def
      slot_body_def dcount_of_eq dmulti_of_eq Let_def
      valid_feature_names_def forbidden_chars_def name_defs
      example_models_def field_def multi_fields_def round_clamp_def py_round_def
      strftime_HM_def two_digits_def upt_conv_Cons)
  finally show ?thesis by simp
qed

lemma example_names:
  "valid_feature_names (count_cols example_models)"
  "valid_feature_names (multi_cols example_models)"
  by (simp_all add: example_models_def valid_feature_names_def forbidden_chars_def name_defs)

lemma example_dcount:
  "dcount_of example_models example_context example_ts [4, 5, 6]
     = Inr [(col_hour, 8), (col_minute, 30), (col_rain, 1), (lag_col 0, 4), (lag_col 2, 6),
            (ascii ''dow'', 0)]"
  by (simp add: dcount_of_eq count_fields_def assign_lags_def enumerate_eq_zip upt_conv_Cons
      example_models_def example_context_def example_ts_def int_of_bool_def
      valid_feature_names_def forbidden_chars_def name_defs)

lemma example_dmulti:
  "dmulti_of example_models example_context example_ts 8 2
     = Inr [(col_queue_at_start, 2), (col_reception, 8), (col_snow, 0), (col_rain, 1),
            (ascii ''dow'', 0)]"
  by (simp add: dmulti_of_eq multi_fields_def
      example_models_def example_context_def example_ts_def int_of_bool_def
      valid_feature_names_def forbidden_chars_def name_defs)

subsection \<open>Weather values\<close>

lemma weather_options_flags:
  assumes "w \<in> set weather_options"
  shows "str_in ame w = (w = ame)" and "str_in yuki w = (w = yuki)"
  using assms by (auto simp: weather_options_def ame_def yuki_def)

subsection \<open>When a run returns\<close>

lemma slot_body_total:
  assumes "valid_feature_names (count_cols M)" and "valid_feature_names (multi_cols M)"
    and "\<And>v. \<exists>x. count_model M v = Inr x"
    and "\<And>v. \<exists>x. queue_model M v = Inr x"
    and "\<And>v. \<exists>x. waittime_model M v = Inr x"
  shows "\<exists>st'. slot_body M ctx st ts = Inr st'"
proof -
  let ?dc = "map (\<lambda>c. (c, count_fields ctx ts (lags st) c)) (count_cols M)"
  from assms(3) obtain rc where rc: "count_model M ?dc = Inr rc" by blast
  let ?dm = "map (\<lambda>c. (c, multi_fields ctx ts (round_clamp rc) (queue_at_start st) c))
      (multi_cols M)"
  from assms(4) obtain rq where rq: "queue_model M ?dm = Inr rq" by blast
  from assms(5) obtain rw where rw: "waittime_model M ?dm = Inr rw" by blast
  show ?thesis
    by (simp add: slot_body_def dcount_of_eq dmulti_of_eq assms(1,2) rc rq rw Let_def)
qed

lemma simulate_slots_total:
  assumes "valid_feature_names (count_cols M)" and "valid_feature_names (multi_cols M)"
    and "\<And>v. \<exists>x. count_model M v = Inr x"
    and "\<And>v. \<exists>x. queue_model M v = Inr x"
    and "\<And>v. \<exists>x. waittime_model M v = Inr x"
  shows "\<exists>st'. simulate_slots M ctx st tss = Inr st'"
proof (induction tss arbitrary: st)
  case Nil
  then show ?case by simp
next
  case (Cons ts tss)
  from slot_body_total [OF assms, of ctx st ts] obtain s1 where
    "slot_body M ctx st ts = Inr s1" by blast
  with Cons.IH [of s1] show ?case by simp
qed

lemma run_total:
  assumes "valid_feature_names (count_cols M)" and "valid_feature_names (multi_cols M)"
    and "\<And>v. \<exists>x. count_model M v = Inr x"
    and "\<And>v. \<exists>x. queue_model M v = Inr x"
    and "\<And>v. \<exists>x. waittime_model M v = Inr x"
    and "1 < day d \<or> 1 < month d \<or> 1 < year d"
  shows "\<exists>rep. run jp M d tp w = Inr rep"
proof -
  have "\<exists>p. sub_one_day d = Inr p"
    using assms(6) by (auto simp: sub_one_day_def)
  then obtain p where "sub_one_day d = Inr p" by blast
  then obtain ctx where ctx: "day_context_of jp d tp w = Inr ctx"
    by (simp add: day_context_of_def is_prev_holiday_def)
  from simulate_slots_total [OF assms(1-5), of ctx init_state "time_slots d"] obtain st where
    "simulate_slots M ctx init_state (time_slots d) = Inr st" by blast
  with ctx show ?thesis by (simp add: run_def)
qed

lemma run_fails_at_date_min:
  "run jp M \<lparr>year = 1, month = 1, day = 1\<rparr> tp w = Inl OverflowError"
  by (simp add: run_def day_context_of_def is_prev_holiday_def sub_one_day_def)

lemma lenient_names:
  "valid_feature_names (count_cols lenient_models)"
  "valid_feature_names (multi_cols lenient_models)"
  by (simp_all add: lenient_models_def valid_feature_names_def forbidden_chars_def name_defs)

lemma lenient_run: "\<exists>rep. run no_holiday lenient_models example_date 1200 ame = Inr rep"
proof (rule run_total [OF lenient_names])
  show "\<exists>x. count_model lenient_models v = Inr x" for v
    unfolding lenient_models_def models.simps by (rule exI, rule refl)
  show "\<exists>x. queue_model lenient_models v = Inr x" for v
    unfolding lenient_models_def models.simps by (rule exI, rule refl)
  show "\<exists>x. waittime_model lenient_models v = Inr x" for v
    unfolding lenient_models_def models.simps by (rule exI, rule refl)
  show "1 < day example_date \<or> 1 < month example_date \<or> 1 < year example_date"
    by (simp add: example_date_def)
qed

subsection \<open>Scorers that agree on the matrices of the schema\<close>



subsection \<open>Runs that differ in the waiting-time scorer\<close>

lemma slot_body_same_flow:
  assumes "slot_body M ctx s ts = Inr s'"
    and "slot_body (M\<lparr>waittime_model := wm\<rparr>) ctx t ts = Inr t'"
    and "same_flow s t"
  shows "same_flow s' t'"
proof -
  from assms(3) have lg: "lags t = lags s" and qs: "queue_at_start t = queue_at_start s"
    by (simp_all add: same_flow_def)
  have dc: "dcount_of (M\<lparr>waittime_model := wm\<rparr>) ctx ts lgs = dcount_of M ctx ts lgs" for lgs
    by (simp add: dcount_of_def)
  have dm: "dmulti_of (M\<lparr>waittime_model := wm\<rparr>) ctx ts r q = dmulti_of M ctx ts r q" for r q
    by (simp add: dmulti_of_def)
  from assms(1) obtain dcount rc dmulti rq rw where
    a: "dcount_of M ctx ts (lags s) = Inr dcount" "count_model M dcount = Inr rc"
      "dmulti_of M ctx ts (round_clamp rc) (queue_at_start s) = Inr dmulti"
      "queue_model M dmulti = Inr rq"
    and s': "s' = \<lparr>results = results s @
                 [\<lparr>time_label = strftime_HM ts, predicted_arrivals = round_clamp rc,
                   predicted_queue = round_clamp rq, predicted_wait_minutes = round_clamp rw\<rparr>],
              lags = round_clamp rc # take 2 (lags s),
              queue_at_start = round_clamp rq\<rparr>"
    by (rule slot_body_Inr)
  from assms(2) obtain dcount2 rc2 dmulti2 rq2 rw2 where
    b: "dcount_of (M\<lparr>waittime_model := wm\<rparr>) ctx ts (lags t) = Inr dcount2"
      "count_model (M\<lparr>waittime_model := wm\<rparr>) dcount2 = Inr rc2"
      "dmulti_of (M\<lparr>waittime_model := wm\<rparr>) ctx ts (round_clamp rc2) (queue_at_start t)
          = Inr dmulti2"
      "queue_model (M\<lparr>waittime_model := wm\<rparr>) dmulti2 = Inr rq2"
    and t': "t' = \<lparr>results = results t @
                 [\<lparr>time_label = strftime_HM ts, predicted_arrivals = round_clamp rc2,
                   predicted_queue = round_clamp rq2, predicted_wait_minutes = round_clamp rw2\<rparr>],
              lags = round_clamp rc2 # take 2 (lags t),
              queue_at_start = round_clamp rq2\<rparr>"
    by (rule slot_body_Inr)
  have "dcount2 = dcount" using a(1) b(1) by (simp add: dc lg)
  then have rc: "rc2 = rc" using a(2) b(2) by simp
  then have "dmulti2 = dmulti" using a(3) b(3) by (simp add: dm qs)
  then have rq: "rq2 = rq" using a(4) b(4) by simp
  show ?thesis
    using assms(3) by (simp add: same_flow_def s' t' rc rq)
qed

lemma simulate_slots_same_flow:
  assumes "simulate_slots M ctx s tss = Inr s'"
    and "simulate_slots (M\<lparr>waittime_model := wm\<rparr>) ctx t tss = Inr t'"
    and "same_flow s t"
  shows "same_flow s' t'"
  using assms
proof (induction tss arbitrary: s t)
  case Nil
  then show ?case by simp
next
  case (Cons ts tss)
  from Cons.prems(1) obtain s1 where s1: "slot_body M ctx s ts = Inr s1"
    and r1: "simulate_slots M ctx s1 tss = Inr s'"
    by (auto split: sum.splits)
  from Cons.prems(2) obtain t1 where t1: "slot_body (M\<lparr>waittime_model := wm\<rparr>) ctx t ts = Inr t1"
    and r2: "simulate_slots (M\<lparr>waittime_model := wm\<rparr>) ctx t1 tss = Inr t'"
    by (auto split: sum.splits)
  from slot_body_same_flow [OF s1 t1 Cons.prems(3)] have "same_flow s1 t1" .
  from Cons.IH [OF r1 r2 this] show ?case .
qed

lemma run_slots_same_flow:
  assumes "run_slots k jp M d tp w = Inr s"
    and "run_slots k jp (M\<lparr>waittime_model := wm\<rparr>) d tp w = Inr t"
  shows "same_flow s t"
proof -
  from assms(1) obtain ctx where ctx: "day_context_of jp d tp w = Inr ctx"
    and a: "simulate_slots M ctx init_state (take k (time_slots d)) = Inr s"
    by (auto simp: run_slots_def split: sum.splits)
  from assms(2) ctx have b: "simulate_slots (M\<lparr>waittime_model := wm\<rparr>) ctx init_state
      (take k (time_slots d)) = Inr t"
    by (simp add: run_slots_def)
  have "same_flow init_state init_state" by (simp add: same_flow_def)
  from simulate_slots_same_flow [OF a b this] show ?thesis .
qed

lemma slow_run: "\<exists>rep. run no_holiday slow_models example_date 1200 ame = Inr rep"
proof (rule run_total)
  show "valid_feature_names (count_cols slow_models)"
    using example_names(1) by (simp add: slow_models_def)
  show "valid_feature_names (multi_cols slow_models)"
    using example_names(2) by (simp add: slow_models_def)
  show "\<exists>x. count_model slow_models v = Inr x" for v
    unfolding slow_models_def example_models_def models.simps by (rule exI, rule refl)
  show "\<exists>x. waittime_model slow_models v = Inr x" for v
    unfolding slow_models_def example_models_def models.simps by (rule exI, rule refl)
  show "\<exists>x. queue_model slow_models v = Inr x" for v
  proof (cases "field v col_queue_at_start")
    case None
    then show ?thesis by (simp add: slow_models_def example_models_def)
  next
    case (Some q)
    then have "queue_model slow_models v = Inr (of_int q + 3 / 2)"
      by (simp add: slow_models_def example_models_def)
    then show ?thesis by (rule exI)
  qed
  show "1 < day example_date \<or> 1 < month example_date \<or> 1 < year example_date"
    by (simp add: example_date_def)
qed

lemma slow_run_first_wait:
  assumes "run no_holiday slow_models example_date 1200 ame = Inr rep"
  shows "predicted_wait_minutes (rep ! 0) = 100"
proof -
  have k: "(0::nat) < 21" by simp
  from run_slot [OF assms k] obtain ctx st st' where
    body: "slot_body slow_models ctx st (time_slots example_date ! 0) = Inr st'"
    and res: "results st' = take (Suc 0) rep"
    by blast
  from body obtain dmulti rc rq rw where
    rw: "waittime_model slow_models dmulti = Inr rw"
    and eq: "st' = \<lparr>results = results st @
                 [\<lparr>time_label = strftime_HM (time_slots example_date ! 0),
                   predicted_arrivals = round_clamp rc,
                   predicted_queue = round_clamp rq,
                   predicted_wait_minutes = round_clamp rw\<rparr>],
              lags = round_clamp rc # take 2 (lags st),
              queue_at_start = round_clamp rq\<rparr>"
    by (rule slot_body_Inr)
  have len: "0 < length rep" using run_length [OF assms] by simp
  have "rep ! 0 = last (results st')"
    using nth_of_take_Suc [OF res len] by simp
  then have "predicted_wait_minutes (rep ! 0) = round_clamp rw"
    by (simp add: eq)
  moreover have "rw = 100" using rw by (simp add: slow_models_def)
  ultimately show ?thesis
    by (simp add: round_clamp_def py_round_def Let_def)
qed

section \<open>Properties of the specification\<close>

text \<open>
  C6. For every date, the classification of lines 82 to 87 is true exactly when the date
  is a public holiday, or its weekday is Saturday (5) or Sunday (6), or it lies in
  December from the 29th on, or in January up to the 3rd. December 30 and January 2 are
  non-working whatever the weekday; a Wednesday (2) that is no public holiday and lies
  outside that window is a working day. Lines 89 to 95 apply the same classification to
  the day before the target date.
\<close>

theorem non_working_day_iff:
  "(is_holiday jp d \<longleftrightarrow>
      jp d \<or> weekday d = 5 \<or> weekday d = 6
      \<or> (month d = 12 \<and> 29 \<le> day d) \<or> (month d = 1 \<and> day d \<le> 3))
   \<and> (month d = 12 \<and> day d = 30 \<longrightarrow> is_holiday jp d)
   \<and> (month d = 1 \<and> day d = 2 \<longrightarrow> is_holiday jp d)
   \<and> (weekday d = 2 \<and> \<not> jp d \<and> \<not> (month d = 12 \<and> 29 \<le> day d)
        \<and> \<not> (month d = 1 \<and> day d \<le> 3) \<longrightarrow> \<not> is_holiday jp d)
   \<and> (\<forall>p. sub_one_day d = Inr p \<longrightarrow> is_prev_holiday jp d = Inr (is_holiday jp p))"
proof -
  have "5 \<le> weekday d \<longleftrightarrow> weekday d = 5 \<or> weekday d = 6"
    using weekday_lt_7 [of d] by arith
  then show ?thesis
    by (auto simp: is_holiday_def is_prev_holiday_def)
qed

theorem non_working_day_iff_witness:
  "weekday \<lparr>year = 2024, month = 12, day = 30\<rparr> = 0
   \<and> is_holiday no_holiday \<lparr>year = 2024, month = 12, day = 30\<rparr>
   \<and> weekday \<lparr>year = 2025, month = 1, day = 2\<rparr> = 3
   \<and> is_holiday no_holiday \<lparr>year = 2025, month = 1, day = 2\<rparr>
   \<and> weekday \<lparr>year = 2024, month = 11, day = 6\<rparr> = 2
   \<and> \<not> is_holiday no_holiday \<lparr>year = 2024, month = 11, day = 6\<rparr>
   \<and> weekday \<lparr>year = 2024, month = 1, day = 6\<rparr> = 5
   \<and> is_holiday no_holiday \<lparr>year = 2024, month = 1, day = 6\<rparr>
   \<and> is_prev_holiday no_holiday \<lparr>year = 2024, month = 1, day = 7\<rparr> = Inr True"
proof -
  have wd: "weekday \<lparr>year = 2024, month = 12, day = 30\<rparr> = 0"
    "weekday \<lparr>year = 2025, month = 1, day = 2\<rparr> = 3"
    "weekday \<lparr>year = 2024, month = 11, day = 6\<rparr> = 2"
    "weekday \<lparr>year = 2024, month = 1, day = 6\<rparr> = 5"
    by (simp_all add: weekday_def toordinal_def days_before_year_def days_before_month_def
        days_in_month_def is_leap_def Let_def upt_conv_Cons)
  have prev: "sub_one_day \<lparr>year = 2024, month = 1, day = 7\<rparr>
      = Inr \<lparr>year = 2024, month = 1, day = 6\<rparr>"
    by (simp add: sub_one_day_def)
  show ?thesis
    using wd prev
      non_working_day_iff [of no_holiday "\<lparr>year = 2024, month = 12, day = 30\<rparr>"]
      non_working_day_iff [of no_holiday "\<lparr>year = 2025, month = 1, day = 2\<rparr>"]
      non_working_day_iff [of no_holiday "\<lparr>year = 2024, month = 11, day = 6\<rparr>"]
      non_working_day_iff [of no_holiday "\<lparr>year = 2024, month = 1, day = 6\<rparr>"]
      non_working_day_iff [of no_holiday "\<lparr>year = 2024, month = 1, day = 7\<rparr>"]
    by (simp add: no_holiday_def)
qed

text \<open>
  C3. The report of a run that returns has exactly 21 rows; their labels are 08:00,
  08:30, ... , 18:00 in this order, so they increase strictly in time and no label occurs
  twice.
\<close>

theorem report_has_21_slots:
  assumes "run jp M d tp w = Inr rep"
  shows "length rep = 21
    \<and> map time_label rep =
        map ascii [''08:00'', ''08:30'', ''09:00'', ''09:30'', ''10:00'', ''10:30'', ''11:00'',
       ''11:30'', ''12:00'', ''12:30'', ''13:00'', ''13:30'', ''14:00'', ''14:30'',
       ''15:00'', ''15:30'', ''16:00'', ''16:30'', ''17:00'', ''17:30'', ''18:00'']
    \<and> sorted_wrt (<) (map (\<lambda>r. label_minutes (time_label r)) rep)
    \<and> distinct (map time_label rep)"
proof -
  have labels: "map time_label rep =
        map ascii [''08:00'', ''08:30'', ''09:00'', ''09:30'', ''10:00'', ''10:30'', ''11:00'',
       ''11:30'', ''12:00'', ''12:30'', ''13:00'', ''13:30'', ''14:00'', ''14:30'',
       ''15:00'', ''15:30'', ''16:00'', ''16:30'', ''17:00'', ''17:30'', ''18:00'']"
    using run_labels [OF assms] by (simp only: labels_eval)
  have "map (\<lambda>r. label_minutes (time_label r)) rep = map label_minutes (map time_label rep)"
    by simp
  then have "sorted_wrt (<) (map (\<lambda>r. label_minutes (time_label r)) rep)"
    unfolding labels by (simp add: label_minutes_def ascii_def)
  moreover have "distinct (map time_label rep)"
    unfolding labels by (simp add: ascii_def)
  ultimately show ?thesis
    using run_length [OF assms] labels by simp
qed

theorem report_has_21_slots_witness:
  "\<exists>rep. run no_holiday example_models example_date 1200 ame = Inr rep
      \<and> length rep = 21
      \<and> map time_label rep =
        map ascii [''08:00'', ''08:30'', ''09:00'', ''09:30'', ''10:00'', ''10:30'', ''11:00'',
       ''11:30'', ''12:00'', ''12:30'', ''13:00'', ''13:30'', ''14:00'', ''14:30'',
       ''15:00'', ''15:30'', ''16:00'', ''16:30'', ''17:00'', ''17:30'', ''18:00'']
      \<and> sorted_wrt (<) (map (\<lambda>r. label_minutes (time_label r)) rep)
      \<and> distinct (map time_label rep)"
  using example_run report_has_21_slots [OF example_run] by blast

text \<open>
  C1. In every slot \<open>k\<close> of a run that returns, the three numbers of the row are
  \<open>round_clamp\<close> of what the three scorers returned on the matrices of that slot:
  the nearest integer (no integer is closer to the raw value), and 0 when that is
  negative, so none of them is negative; -2.4 gives 0 and 7.6 gives 8. The values are
  rounded and clamped before they go on: the state after the slot holds the clamped
  arrivals at the head of \<open>lags\<close> and the clamped queue in \<open>queue_at_start\<close>, and
  the matrix of the queue and waiting-time scorers holds the clamped arrivals in its
  field \<open>reception_count\<close>.
\<close>

theorem predictions_rounded_and_clamped:
  assumes "run jp M d tp w = Inr rep" and "k < 21"
  shows "(\<exists>ctx st st' dcount dmulti rc rq rw.
        day_context_of jp d tp w = Inr ctx
      \<and> run_slots k jp M d tp w = Inr st
      \<and> run_slots (Suc k) jp M d tp w = Inr st'
      \<and> dcount_of M ctx (time_slots d ! k) (lags st) = Inr dcount
      \<and> count_model M dcount = Inr rc
      \<and> dmulti_of M ctx (time_slots d ! k) (round_clamp rc) (queue_at_start st) = Inr dmulti
      \<and> queue_model M dmulti = Inr rq
      \<and> waittime_model M dmulti = Inr rw
      \<and> predicted_arrivals (rep ! k) = round_clamp rc
      \<and> predicted_queue (rep ! k) = round_clamp rq
      \<and> predicted_wait_minutes (rep ! k) = round_clamp rw
      \<and> lags st' = round_clamp rc # take 2 (lags st)
      \<and> queue_at_start st' = round_clamp rq
      \<and> (col_reception \<in> set (multi_cols M) \<longrightarrow>
            field dmulti col_reception = Some (round_clamp rc)))
    \<and> 0 \<le> predicted_arrivals (rep ! k)
    \<and> 0 \<le> predicted_queue (rep ! k)
    \<and> 0 \<le> predicted_wait_minutes (rep ! k)
    \<and> (\<forall>x. round_clamp x = max 0 (py_round x)
          \<and> (\<forall>n. \<bar>real_of_int (py_round x) - x\<bar> \<le> \<bar>real_of_int n - x\<bar>))
    \<and> round_clamp (- 12 / 5) = 0 \<and> round_clamp (38 / 5) = 8"
proof -
  from run_slot [OF assms] obtain ctx st st' where
    ctx: "day_context_of jp d tp w = Inr ctx"
    and st: "run_slots k jp M d tp w = Inr st"
    and body: "slot_body M ctx st (time_slots d ! k) = Inr st'"
    and st': "run_slots (Suc k) jp M d tp w = Inr st'"
    and res: "results st' = take (Suc k) rep"
    by blast
  have len: "k < length rep" using run_length [OF assms(1)] assms(2) by simp
  from body obtain dcount rc dmulti rq rw where
    dc: "dcount_of M ctx (time_slots d ! k) (lags st) = Inr dcount"
    and rc: "count_model M dcount = Inr rc"
    and dm: "dmulti_of M ctx (time_slots d ! k) (round_clamp rc) (queue_at_start st) = Inr dmulti"
    and rq: "queue_model M dmulti = Inr rq"
    and rw: "waittime_model M dmulti = Inr rw"
    and eq: "st' = \<lparr>results = results st @
                 [\<lparr>time_label = strftime_HM (time_slots d ! k),
                   predicted_arrivals = round_clamp rc,
                   predicted_queue = round_clamp rq,
                   predicted_wait_minutes = round_clamp rw\<rparr>],
              lags = round_clamp rc # take 2 (lags st),
              queue_at_start = round_clamp rq\<rparr>"
    by (rule slot_body_Inr)
  have row: "rep ! k = \<lparr>time_label = strftime_HM (time_slots d ! k),
                   predicted_arrivals = round_clamp rc,
                   predicted_queue = round_clamp rq,
                   predicted_wait_minutes = round_clamp rw\<rparr>"
    using nth_of_take_Suc [OF res len] by (simp add: eq)
  have fld: "col_reception \<in> set (multi_cols M) \<longrightarrow>
            field dmulti col_reception = Some (round_clamp rc)"
    by (simp add: dmulti_of_Inr(1) [OF dm] field_of_map multi_fields_values)
  have vals: "predicted_arrivals (rep ! k) = round_clamp rc"
    "predicted_queue (rep ! k) = round_clamp rq"
    "predicted_wait_minutes (rep ! k) = round_clamp rw"
    by (simp_all add: row)
  have state: "lags st' = round_clamp rc # take 2 (lags st)"
    "queue_at_start st' = round_clamp rq"
    by (simp_all add: eq)
  have trace: "\<exists>ctx st st' dcount dmulti rc rq rw.
        day_context_of jp d tp w = Inr ctx
      \<and> run_slots k jp M d tp w = Inr st
      \<and> run_slots (Suc k) jp M d tp w = Inr st'
      \<and> dcount_of M ctx (time_slots d ! k) (lags st) = Inr dcount
      \<and> count_model M dcount = Inr rc
      \<and> dmulti_of M ctx (time_slots d ! k) (round_clamp rc) (queue_at_start st) = Inr dmulti
      \<and> queue_model M dmulti = Inr rq
      \<and> waittime_model M dmulti = Inr rw
      \<and> predicted_arrivals (rep ! k) = round_clamp rc
      \<and> predicted_queue (rep ! k) = round_clamp rq
      \<and> predicted_wait_minutes (rep ! k) = round_clamp rw
      \<and> lags st' = round_clamp rc # take 2 (lags st)
      \<and> queue_at_start st' = round_clamp rq
      \<and> (col_reception \<in> set (multi_cols M) \<longrightarrow>
            field dmulti col_reception = Some (round_clamp rc))"
    using ctx st st' dc rc dm rq rw vals state fld by blast
  have rnd: "\<forall>x. round_clamp x = max 0 (py_round x)
          \<and> (\<forall>n. \<bar>real_of_int (py_round x) - x\<bar> \<le> \<bar>real_of_int n - x\<bar>)"
    by (simp add: round_clamp_def py_round_nearest)
  have nn: "0 \<le> predicted_arrivals (rep ! k)" "0 \<le> predicted_queue (rep ! k)"
    "0 \<le> predicted_wait_minutes (rep ! k)"
    by (simp_all add: vals round_clamp_nonneg)
  show ?thesis
    by (intro conjI trace nn rnd round_clamp_examples)
qed

theorem predictions_rounded_and_clamped_witness:
  "run no_holiday example_models example_date 1200 ame = Inr example_report
   \<and> (3::nat) < 21
   \<and> predicted_arrivals (example_report ! 3) = 8
   \<and> predicted_wait_minutes (example_report ! 3) = 0
   \<and> (\<exists>ctx st dcount dmulti rc rq rw.
        run_slots 3 no_holiday example_models example_date 1200 ame = Inr st
      \<and> dcount_of example_models ctx (time_slots example_date ! 3) (lags st) = Inr dcount
      \<and> count_model example_models dcount = Inr rc
      \<and> dmulti_of example_models ctx (time_slots example_date ! 3) (round_clamp rc)
            (queue_at_start st) = Inr dmulti
      \<and> queue_model example_models dmulti = Inr rq
      \<and> waittime_model example_models dmulti = Inr rw
      \<and> round_clamp rc = 8 \<and> round_clamp rw = 0
      \<and> predicted_queue (example_report ! 3) = round_clamp rq
      \<and> field dmulti col_reception = Some 8)"
proof -
  have k: "(3::nat) < 21" by simp
  have mem: "col_reception \<in> set (multi_cols example_models)"
    by (simp add: example_models_def)
  have vals: "predicted_arrivals (example_report ! 3) = 8"
    "predicted_wait_minutes (example_report ! 3) = 0"
    by (simp_all add: example_report_def)
  from predictions_rounded_and_clamped [OF example_run k]
  obtain ctx st st' dcount dmulti rc rq rw where
    "run_slots 3 no_holiday example_models example_date 1200 ame = Inr st"
    "dcount_of example_models ctx (time_slots example_date ! 3) (lags st) = Inr dcount"
    "count_model example_models dcount = Inr rc"
    "dmulti_of example_models ctx (time_slots example_date ! 3) (round_clamp rc)
            (queue_at_start st) = Inr dmulti"
    "queue_model example_models dmulti = Inr rq"
    "waittime_model example_models dmulti = Inr rw"
    "predicted_arrivals (example_report ! 3) = round_clamp rc"
    "predicted_queue (example_report ! 3) = round_clamp rq"
    "predicted_wait_minutes (example_report ! 3) = round_clamp rw"
    "col_reception \<in> set (multi_cols example_models) \<longrightarrow>
            field dmulti col_reception = Some (round_clamp rc)"
    by blast
  with mem vals have "\<exists>ctx st dcount dmulti rc rq rw.
        run_slots 3 no_holiday example_models example_date 1200 ame = Inr st
      \<and> dcount_of example_models ctx (time_slots example_date ! 3) (lags st) = Inr dcount
      \<and> count_model example_models dcount = Inr rc
      \<and> dmulti_of example_models ctx (time_slots example_date ! 3) (round_clamp rc)
            (queue_at_start st) = Inr dmulti
      \<and> queue_model example_models dmulti = Inr rq
      \<and> waittime_model example_models dmulti = Inr rw
      \<and> round_clamp rc = 8 \<and> round_clamp rw = 0
      \<and> predicted_queue (example_report ! 3) = round_clamp rq
      \<and> field dmulti col_reception = Some 8"
    by (intro exI [of _ ctx] exI [of _ st] exI [of _ dcount] exI [of _ dmulti]
        exI [of _ rc] exI [of _ rq] exI [of _ rw]) simp
  with example_run k vals show ?thesis by (intro conjI)
qed

text \<open>
  C2. In every slot \<open>k\<close> of a run that returns, the matrix handed to the queue scorer
  is built with the variable \<open>queue_at_start\<close> of the state the previous slots left,
  and that variable is 0 in the first slot and the \<open>predicted_queue\<close> of the row of
  slot \<open>k - 1\<close> afterwards; when the schema has the field
  \<open>queue_at_start_of_slot\<close>, the matrix holds that value there.
\<close>

theorem queue_carry_is_previous_queue:
  assumes "run jp M d tp w = Inr rep" and "k < 21"
  shows "\<exists>ctx st dmulti rq.
        day_context_of jp d tp w = Inr ctx
      \<and> run_slots k jp M d tp w = Inr st
      \<and> dmulti_of M ctx (time_slots d ! k) (predicted_arrivals (rep ! k)) (queue_at_start st)
          = Inr dmulti
      \<and> queue_model M dmulti = Inr rq
      \<and> predicted_queue (rep ! k) = round_clamp rq
      \<and> queue_at_start st = (if k = 0 then 0 else predicted_queue (rep ! (k - 1)))
      \<and> (col_queue_at_start \<in> set (multi_cols M) \<longrightarrow>
            field dmulti col_queue_at_start
              = Some (if k = 0 then 0 else predicted_queue (rep ! (k - 1))))"
proof -
  from run_slot [OF assms] obtain ctx st st' where
    ctx: "day_context_of jp d tp w = Inr ctx"
    and st: "run_slots k jp M d tp w = Inr st"
    and body: "slot_body M ctx st (time_slots d ! k) = Inr st'"
    and res: "results st' = take (Suc k) rep"
    by blast
  have len: "length rep = 21" by (rule run_length [OF assms(1)])
  from body obtain dcount rc dmulti rq rw where
    dm: "dmulti_of M ctx (time_slots d ! k) (round_clamp rc) (queue_at_start st) = Inr dmulti"
    and rq: "queue_model M dmulti = Inr rq"
    and eq: "st' = \<lparr>results = results st @
                 [\<lparr>time_label = strftime_HM (time_slots d ! k),
                   predicted_arrivals = round_clamp rc,
                   predicted_queue = round_clamp rq,
                   predicted_wait_minutes = round_clamp rw\<rparr>],
              lags = round_clamp rc # take 2 (lags st),
              queue_at_start = round_clamp rq\<rparr>"
    by (rule slot_body_Inr)
  have "rep ! k = last (results st')"
    using nth_of_take_Suc [OF res] assms(2) len by simp
  then have row: "predicted_arrivals (rep ! k) = round_clamp rc"
    "predicted_queue (rep ! k) = round_clamp rq"
    by (simp_all add: eq)
  have carry: "queue_at_start st = (if k = 0 then 0 else predicted_queue (rep ! (k - 1)))"
  proof (cases k)
    case 0
    then have "st = init_state" using st run_slots_0 [OF ctx, of M] by simp
    then show ?thesis using 0 by (simp add: init_state_def)
  next
    case (Suc j)
    then have j: "j < 21" using assms(2) by simp
    from run_slot [OF assms(1) j] obtain c0 s0 s1 where
      c0: "day_context_of jp d tp w = Inr c0"
      and b0: "slot_body M c0 s0 (time_slots d ! j) = Inr s1"
      and s1: "run_slots (Suc j) jp M d tp w = Inr s1"
      and r1: "results s1 = take (Suc j) rep"
      by blast
    have "s1 = st" using s1 st Suc by simp
    moreover have "last (results s1) = rep ! j"
      using nth_of_take_Suc [OF r1] j len by simp
    ultimately show ?thesis
      using slot_body_state(2) [OF b0] Suc by simp
  qed
  have "col_queue_at_start \<in> set (multi_cols M) \<longrightarrow>
      field dmulti col_queue_at_start = Some (queue_at_start st)"
    by (simp add: dmulti_of_Inr(1) [OF dm] field_of_map multi_fields_values)
  then show ?thesis
    using ctx st dm rq row carry by (intro exI [of _ ctx] exI [of _ st] exI [of _ dmulti] exI [of _ rq]) simp
qed

theorem queue_carry_is_previous_queue_witness:
  "run no_holiday example_models example_date 1200 ame = Inr example_report
   \<and> (3::nat) < 21
   \<and> predicted_queue (example_report ! 2) = 6
   \<and> (\<exists>ctx st dmulti rq.
        run_slots 3 no_holiday example_models example_date 1200 ame = Inr st
      \<and> dmulti_of example_models ctx (time_slots example_date ! 3)
            (predicted_arrivals (example_report ! 3)) (queue_at_start st) = Inr dmulti
      \<and> queue_model example_models dmulti = Inr rq
      \<and> predicted_queue (example_report ! 3) = round_clamp rq
      \<and> queue_at_start st = 6
      \<and> field dmulti col_queue_at_start = Some 6)"
proof -
  have k: "(3::nat) < 21" by simp
  have mem: "col_queue_at_start \<in> set (multi_cols example_models)"
    by (simp add: example_models_def)
  have prev: "predicted_queue (example_report ! 2) = 6"
    by (simp add: example_report_def)
  from queue_carry_is_previous_queue [OF example_run k]
  obtain ctx st dmulti rq where
    "run_slots 3 no_holiday example_models example_date 1200 ame = Inr st"
    "dmulti_of example_models ctx (time_slots example_date ! 3)
            (predicted_arrivals (example_report ! 3)) (queue_at_start st) = Inr dmulti"
    "queue_model example_models dmulti = Inr rq"
    "predicted_queue (example_report ! 3) = round_clamp rq"
    "queue_at_start st = (if (3::nat) = 0 then 0 else predicted_queue (example_report ! (3 - 1)))"
    "col_queue_at_start \<in> set (multi_cols example_models) \<longrightarrow>
            field dmulti col_queue_at_start
              = Some (if (3::nat) = 0 then 0 else predicted_queue (example_report ! (3 - 1)))"
    by blast
  with mem prev have "\<exists>ctx st dmulti rq.
        run_slots 3 no_holiday example_models example_date 1200 ame = Inr st
      \<and> dmulti_of example_models ctx (time_slots example_date ! 3)
            (predicted_arrivals (example_report ! 3)) (queue_at_start st) = Inr dmulti
      \<and> queue_model example_models dmulti = Inr rq
      \<and> predicted_queue (example_report ! 3) = round_clamp rq
      \<and> queue_at_start st = 6
      \<and> field dmulti col_queue_at_start = Some 6"
    by (intro exI [of _ ctx] exI [of _ st] exI [of _ dmulti] exI [of _ rq]) simp
  with example_run k prev show ?thesis by (intro conjI)
qed

text \<open>
  C4. At every step of the loop \<open>lags\<close> has exactly three entries, \<open>[0, 0, 0]\<close> before
  the first slot; after a slot it is the arrivals of the row just appended, followed by
  the first two entries it had before the slot.
\<close>

theorem recent_arrivals_window:
  assumes "run_slots k jp M d tp w = Inr st" and "k \<le> 21"
  shows "length (lags st) = 3
    \<and> (k = 0 \<longrightarrow> lags st = [0, 0, 0])
    \<and> (\<forall>st'. k < 21 \<and> run_slots (Suc k) jp M d tp w = Inr st' \<longrightarrow>
          results st' \<noteq> []
        \<and> lags st' = [predicted_arrivals (last (results st')), lags st ! 0, lags st ! 1]
        \<and> length (lags st') = 3)"
proof -
  have len: "length (lags st) = 3" by (rule run_slots_lags_length [OF assms])
  from assms(1) obtain ctx where ctx: "day_context_of jp d tp w = Inr ctx"
    by (auto simp: run_slots_def split: sum.splits)
  have init: "k = 0 \<longrightarrow> lags st = [0, 0, 0]"
  proof
    assume "k = 0"
    then have "st = init_state" using assms(1) run_slots_0 [OF ctx, of M] by simp
    then show "lags st = [0, 0, 0]" by (simp add: init_state_def)
  qed
  have step: "results st' \<noteq> []
        \<and> lags st' = [predicted_arrivals (last (results st')), lags st ! 0, lags st ! 1]
        \<and> length (lags st') = 3"
    if k: "k < 21" and st': "run_slots (Suc k) jp M d tp w = Inr st'" for st'
  proof -
    have body: "slot_body M ctx st (time_slots d ! k) = Inr st'"
      using run_slots_Suc [OF ctx k, of M] assms(1) st' by simp
    obtain a b c where abc: "lags st = [a, b, c]"
      using len by (metis (no_types) length_0_conv length_Suc_conv numeral_3_eq_3)
    show ?thesis
      using slot_body_state [OF body] by (simp add: abc)
  qed
  show ?thesis using len init step by blast
qed

theorem recent_arrivals_window_witness:
  "run_slots 0 no_holiday example_models example_date 1200 ame = Inr init_state
   \<and> (0::nat) \<le> 21
   \<and> lags init_state = [0, 0, 0]
   \<and> run_slots (Suc 0) no_holiday example_models example_date 1200 ame = Inr example_state1
   \<and> lags example_state1
       = [predicted_arrivals (last (results example_state1)), lags init_state ! 0,
          lags init_state ! 1]
   \<and> lags example_state1 = [8, 0, 0]
   \<and> length (lags example_state1) = 3"
proof -
  have r0: "run_slots 0 no_holiday example_models example_date 1200 ame = Inr init_state"
    by (rule run_slots_0 [OF example_day_context])
  have k: "(0::nat) \<le> 21" by simp
  have r1: "run_slots (Suc 0) no_holiday example_models example_date 1200 ame
      = Inr example_state1"
    using example_run_slots_1 by simp
  from recent_arrivals_window [OF r0 k] r1
  have "lags init_state = [0, 0, 0]"
    and "lags example_state1
       = [predicted_arrivals (last (results example_state1)), lags init_state ! 0,
          lags init_state ! 1]"
    and "length (lags example_state1) = 3"
    by simp_all
  moreover have "lags example_state1 = [8, 0, 0]"
    by (simp add: example_state1_def)
  ultimately show ?thesis using r0 k r1 by (intro conjI)
qed

text \<open>
  C8. For every schema, the matrix handed to the arrival scorer has exactly the fields of
  \<open>count_cols\<close> in the order of \<open>count_cols\<close>, field \<open>i\<close> of the matrix being
  field \<open>i\<close> of the schema, and likewise the matrix of the queue and waiting-time
  scorers and \<open>multi_cols\<close>. A matrix is built for every schema whose names are
  valid feature names; for any other schema the construction raises ValueError and no
  scorer is called.
\<close>

theorem matrix_follows_schema:
  "(\<forall>v. dcount_of M ctx ts lgs = Inr v \<longrightarrow>
        columns v = count_cols M
      \<and> length v = length (count_cols M)
      \<and> (\<forall>i < length (count_cols M). fst (v ! i) = count_cols M ! i))
   \<and> (\<forall>v. dmulti_of M ctx ts r q = Inr v \<longrightarrow>
        columns v = multi_cols M
      \<and> length v = length (multi_cols M)
      \<and> (\<forall>i < length (multi_cols M). fst (v ! i) = multi_cols M ! i))
   \<and> (valid_feature_names (count_cols M) \<longrightarrow> (\<exists>v. dcount_of M ctx ts lgs = Inr v))
   \<and> (valid_feature_names (multi_cols M) \<longrightarrow> (\<exists>v. dmulti_of M ctx ts r q = Inr v))
   \<and> (\<not> valid_feature_names (count_cols M) \<longrightarrow> dcount_of M ctx ts lgs = Inl ValueError)
   \<and> (\<not> valid_feature_names (multi_cols M) \<longrightarrow> dmulti_of M ctx ts r q = Inl ValueError)"
proof -
  have c: "columns v = count_cols M \<and> length v = length (count_cols M)
      \<and> (\<forall>i < length (count_cols M). fst (v ! i) = count_cols M ! i)"
    if "dcount_of M ctx ts lgs = Inr v" for v
    by (simp add: dcount_of_Inr(1) [OF that] columns_of_map)
  have m: "columns v = multi_cols M \<and> length v = length (multi_cols M)
      \<and> (\<forall>i < length (multi_cols M). fst (v ! i) = multi_cols M ! i)"
    if "dmulti_of M ctx ts r q = Inr v" for v
    by (simp add: dmulti_of_Inr(1) [OF that] columns_of_map)
  show ?thesis
    using c m by (simp add: dcount_of_eq dmulti_of_eq)
qed

theorem matrix_follows_schema_witness:
  "dcount_of example_models example_context example_ts [4, 5, 6]
     = Inr [(col_hour, 8), (col_minute, 30), (col_rain, 1), (lag_col 0, 4), (lag_col 2, 6),
            (ascii ''dow'', 0)]
   \<and> columns [(col_hour, 8), (col_minute, 30), (col_rain, 1), (lag_col 0, 4), (lag_col 2, 6),
            (ascii ''dow'', 0)] = count_cols example_models
   \<and> dmulti_of example_models example_context example_ts 8 2
     = Inr [(col_queue_at_start, 2), (col_reception, 8), (col_snow, 0), (col_rain, 1),
            (ascii ''dow'', 0)]
   \<and> columns [(col_queue_at_start, 2), (col_reception, 8), (col_snow, 0), (col_rain, 1),
            (ascii ''dow'', 0)] = multi_cols example_models
   \<and> valid_feature_names (count_cols example_models)
   \<and> valid_feature_names (multi_cols example_models)"
  using example_dcount example_dmulti example_names
    matrix_follows_schema [of example_models example_context example_ts "[4, 5, 6]" 8 2]
  by simp

text \<open>
  C7. For each of the six weather values of the select box, in both matrices of any slot,
  the rain flag is 1 exactly when the weather is the rain value and the snow flag is 1
  exactly when it is the snow value: rain gives (1, 0), snow gives (0, 1), every other
  value (0, 0). The flags are the substring tests of lines 117, 118, 139 and 140.
\<close>

theorem weather_flags:
  assumes "ctx_weather ctx \<in> set weather_options"
  shows "(\<forall>v. dcount_of M ctx ts lgs = Inr v \<longrightarrow>
        (col_rain \<in> set (count_cols M) \<longrightarrow>
           field v col_rain = Some (if ctx_weather ctx = ame then 1 else 0))
      \<and> (col_snow \<in> set (count_cols M) \<longrightarrow>
           field v col_snow = Some (if ctx_weather ctx = yuki then 1 else 0)))
   \<and> (\<forall>v. dmulti_of M ctx ts r q = Inr v \<longrightarrow>
        (col_rain \<in> set (multi_cols M) \<longrightarrow>
           field v col_rain = Some (if ctx_weather ctx = ame then 1 else 0))
      \<and> (col_snow \<in> set (multi_cols M) \<longrightarrow>
           field v col_snow = Some (if ctx_weather ctx = yuki then 1 else 0)))
   \<and> ame \<noteq> yuki
   \<and> int_of_bool (str_in ame (ctx_weather ctx)) = (if ctx_weather ctx = ame then 1 else 0)
   \<and> int_of_bool (str_in yuki (ctx_weather ctx)) = (if ctx_weather ctx = yuki then 1 else 0)"
proof -
  note fl = weather_options_flags [OF assms]
  have c: "(col_rain \<in> set (count_cols M) \<longrightarrow>
           field v col_rain = Some (if ctx_weather ctx = ame then 1 else 0))
      \<and> (col_snow \<in> set (count_cols M) \<longrightarrow>
           field v col_snow = Some (if ctx_weather ctx = yuki then 1 else 0))"
    if "dcount_of M ctx ts lgs = Inr v" for v
    by (simp add: dcount_of_Inr(1) [OF that] field_of_map count_fields_values fl int_of_bool_def)
  have m: "(col_rain \<in> set (multi_cols M) \<longrightarrow>
           field v col_rain = Some (if ctx_weather ctx = ame then 1 else 0))
      \<and> (col_snow \<in> set (multi_cols M) \<longrightarrow>
           field v col_snow = Some (if ctx_weather ctx = yuki then 1 else 0))"
    if "dmulti_of M ctx ts r q = Inr v" for v
    by (simp add: dmulti_of_Inr(1) [OF that] field_of_map multi_fields_values fl int_of_bool_def)
  have "ame \<noteq> yuki" by (simp add: ame_def yuki_def)
  then show ?thesis using c m by (simp add: fl int_of_bool_def)
qed

theorem weather_flags_witness:
  "ctx_weather example_context \<in> set weather_options
   \<and> ctx_weather example_context = ame
   \<and> dcount_of example_models example_context example_ts [4, 5, 6]
     = Inr [(col_hour, 8), (col_minute, 30), (col_rain, 1), (lag_col 0, 4), (lag_col 2, 6),
            (ascii ''dow'', 0)]
   \<and> field [(col_hour, 8), (col_minute, 30), (col_rain, 1), (lag_col 0, 4), (lag_col 2, 6),
            (ascii ''dow'', 0)] col_rain = Some 1
   \<and> dmulti_of example_models example_context example_ts 8 2
     = Inr [(col_queue_at_start, 2), (col_reception, 8), (col_snow, 0), (col_rain, 1),
            (ascii ''dow'', 0)]
   \<and> field [(col_queue_at_start, 2), (col_reception, 8), (col_snow, 0), (col_rain, 1),
            (ascii ''dow'', 0)] col_rain = Some 1
   \<and> field [(col_queue_at_start, 2), (col_reception, 8), (col_snow, 0), (col_rain, 1),
            (ascii ''dow'', 0)] col_snow = Some 0"
proof -
  have w: "ctx_weather example_context \<in> set weather_options"
    "ctx_weather example_context = ame"
    by (simp_all add: example_context_def weather_options_def)
  have mem: "col_rain \<in> set (count_cols example_models)"
    "col_rain \<in> set (multi_cols example_models)"
    "col_snow \<in> set (multi_cols example_models)"
    by (simp_all add: example_models_def)
  have ne: "ame \<noteq> yuki" by (simp add: ame_def yuki_def)
  show ?thesis
    using w mem ne example_dcount example_dmulti
      weather_flags [OF w(1), of example_models example_ts "[4, 5, 6]" 8 2]
    by simp
qed

text \<open>
  C5, as the code has it. A field that the builders assign and the schema does not list
  is left out of the matrix, and this never makes the construction fail: \<open>hour\<close> and
  \<open>minute\<close> are treated like every other assigned field. For every schema whose names
  are valid feature names both matrices are built, with exactly the schema's fields;
  every schema field that the builder does not assign holds 0. The construction fails
  only with ValueError, and only when the names of the schema are not valid feature
  names.
\<close>

theorem absent_fields_are_omitted:
  "(valid_feature_names (count_cols M) \<longrightarrow>
      (\<exists>v. dcount_of M ctx ts lgs = Inr v
         \<and> columns v = count_cols M
         \<and> (\<forall>c. c \<notin> set (count_cols M) \<longrightarrow> field v c = None)
         \<and> (\<forall>c. c \<in> set (count_cols M) \<and> c \<notin> set (count_assigned (length lgs)) \<longrightarrow>
               field v c = Some 0)))
   \<and> (valid_feature_names (multi_cols M) \<longrightarrow>
      (\<exists>v. dmulti_of M ctx ts r q = Inr v
         \<and> columns v = multi_cols M
         \<and> (\<forall>c. c \<notin> set (multi_cols M) \<longrightarrow> field v c = None)
         \<and> (\<forall>c. c \<in> set (multi_cols M) \<and> c \<notin> set multi_assigned \<longrightarrow>
               field v c = Some 0)))
   \<and> (\<forall>e. dcount_of M ctx ts lgs = Inl e \<longrightarrow>
         e = ValueError \<and> \<not> valid_feature_names (count_cols M))
   \<and> (\<forall>e. dmulti_of M ctx ts r q = Inl e \<longrightarrow>
         e = ValueError \<and> \<not> valid_feature_names (multi_cols M))"
proof -
  have c: "\<exists>v. dcount_of M ctx ts lgs = Inr v
         \<and> columns v = count_cols M
         \<and> (\<forall>c. c \<notin> set (count_cols M) \<longrightarrow> field v c = None)
         \<and> (\<forall>c. c \<in> set (count_cols M) \<and> c \<notin> set (count_assigned (length lgs)) \<longrightarrow>
               field v c = Some 0)"
    if "valid_feature_names (count_cols M)"
    using that
    by (simp add: dcount_of_eq columns_of_map field_of_map count_fields_unassigned)
  have m: "\<exists>v. dmulti_of M ctx ts r q = Inr v
         \<and> columns v = multi_cols M
         \<and> (\<forall>c. c \<notin> set (multi_cols M) \<longrightarrow> field v c = None)
         \<and> (\<forall>c. c \<in> set (multi_cols M) \<and> c \<notin> set multi_assigned \<longrightarrow>
               field v c = Some 0)"
    if "valid_feature_names (multi_cols M)"
    using that
    by (simp add: dmulti_of_eq columns_of_map field_of_map multi_fields_unassigned)
  have ce: "e = ValueError \<and> \<not> valid_feature_names (count_cols M)"
    if "dcount_of M ctx ts lgs = Inl e" for e
    using that by (simp add: dcount_of_eq split: if_splits)
  have me: "e = ValueError \<and> \<not> valid_feature_names (multi_cols M)"
    if "dmulti_of M ctx ts r q = Inl e" for e
    using that by (simp add: dmulti_of_eq split: if_splits)
  show ?thesis using c m ce me by blast
qed

theorem absent_fields_are_omitted_witness:
  "valid_feature_names (count_cols lenient_models)
   \<and> valid_feature_names (multi_cols lenient_models)
   \<and> col_hour \<notin> set (count_cols lenient_models)
   \<and> col_minute \<notin> set (multi_cols lenient_models)
   \<and> ascii ''dow'' \<in> set (multi_cols lenient_models)
   \<and> ascii ''dow'' \<notin> set multi_assigned
   \<and> (\<exists>v. dcount_of lenient_models example_context example_ts [4, 5, 6] = Inr v
         \<and> columns v = count_cols lenient_models
         \<and> field v col_hour = None)
   \<and> (\<exists>v. dmulti_of lenient_models example_context example_ts 8 2 = Inr v
         \<and> columns v = multi_cols lenient_models
         \<and> field v col_minute = None
         \<and> field v (ascii ''dow'') = Some 0)"
proof -
  have mem: "col_hour \<notin> set (count_cols lenient_models)"
    "col_minute \<notin> set (multi_cols lenient_models)"
    "ascii ''dow'' \<in> set (multi_cols lenient_models)"
    "ascii ''dow'' \<notin> set multi_assigned"
    by (simp_all add: lenient_models_def multi_assigned_def name_defs)
  note t = absent_fields_are_omitted
    [of lenient_models example_context example_ts "[4, 5, 6]" 8 2]
  from t lenient_names(1) obtain v where v:
    "dcount_of lenient_models example_context example_ts [4, 5, 6] = Inr v"
    "columns v = count_cols lenient_models"
    "\<forall>c. c \<notin> set (count_cols lenient_models) \<longrightarrow> field v c = None"
    by blast
  from t lenient_names(2) obtain u where u:
    "dmulti_of lenient_models example_context example_ts 8 2 = Inr u"
    "columns u = multi_cols lenient_models"
    "\<forall>c. c \<notin> set (multi_cols lenient_models) \<longrightarrow> field u c = None"
    "\<forall>c. c \<in> set (multi_cols lenient_models) \<and> c \<notin> set multi_assigned \<longrightarrow>
               field u c = Some 0"
    by blast
  have "\<exists>v. dcount_of lenient_models example_context example_ts [4, 5, 6] = Inr v
         \<and> columns v = count_cols lenient_models
         \<and> field v col_hour = None"
    using v mem(1) by blast
  moreover have "\<exists>v. dmulti_of lenient_models example_context example_ts 8 2 = Inr v
         \<and> columns v = multi_cols lenient_models
         \<and> field v col_minute = None
         \<and> field v (ascii ''dow'') = Some 0"
    using u mem(2,3,4) by blast
  ultimately show ?thesis using lenient_names mem by (intro conjI)
qed

text \<open>
  C5 as stated says that the absence of \<open>hour\<close> or \<open>minute\<close> from the schema is not
  tolerated. With schemas that list neither, both matrices are built without them and
  the whole run returns a report.
\<close>

theorem hour_and_minute_not_required_counterexample:
  "col_hour \<notin> set (count_cols lenient_models)
   \<and> col_minute \<notin> set (count_cols lenient_models)
   \<and> col_hour \<notin> set (multi_cols lenient_models)
   \<and> col_minute \<notin> set (multi_cols lenient_models)
   \<and> dcount_of lenient_models example_context example_ts [4, 5, 6]
       = Inr [(col_is_holiday, 0), (lag_col 0, 4)]
   \<and> dmulti_of lenient_models example_context example_ts 8 2
       = Inr [(col_reception, 8), (ascii ''dow'', 0)]
   \<and> \<not> isl (run no_holiday lenient_models example_date 1200 ame)"
proof -
  have "col_hour \<notin> set (count_cols lenient_models)
   \<and> col_minute \<notin> set (count_cols lenient_models)
   \<and> col_hour \<notin> set (multi_cols lenient_models)
   \<and> col_minute \<notin> set (multi_cols lenient_models)"
    by (simp add: lenient_models_def name_defs)
  moreover have "dcount_of lenient_models example_context example_ts [4, 5, 6]
       = Inr [(col_is_holiday, 0), (lag_col 0, 4)]"
    by (simp add: dcount_of_eq count_fields_def assign_lags_def enumerate_eq_zip upt_conv_Cons
      lenient_models_def example_context_def example_ts_def int_of_bool_def
      valid_feature_names_def forbidden_chars_def name_defs)
  moreover have "dmulti_of lenient_models example_context example_ts 8 2
       = Inr [(col_reception, 8), (ascii ''dow'', 0)]"
    by (simp add: dmulti_of_eq multi_fields_def
      lenient_models_def example_context_def example_ts_def int_of_bool_def
      valid_feature_names_def forbidden_chars_def name_defs)
  moreover have "\<not> isl (run no_holiday lenient_models example_date 1200 ame)"
    using lenient_run by auto
  ultimately show ?thesis by (intro conjI) simp_all
qed



text \<open>
  C10. Two runs that differ in the waiting-time scorer only, and both return, have the same
  arrivals and the same queue in every row. The waiting-time prediction goes into the row
  and nowhere else: after any number of slots the two runs hold the same \<open>lags\<close> and
  the same \<open>queue_at_start\<close>, and the matrices are built without the scorer.
\<close>

theorem wait_scorer_does_not_feed_forward:
  assumes "run jp M d tp w = Inr rep"
    and "run jp (M\<lparr>waittime_model := wm\<rparr>) d tp w = Inr rep'"
  shows "map predicted_arrivals rep' = map predicted_arrivals rep
    \<and> map predicted_queue rep' = map predicted_queue rep
    \<and> map time_label rep' = map time_label rep
    \<and> (\<forall>k s t. run_slots k jp M d tp w = Inr s
          \<and> run_slots k jp (M\<lparr>waittime_model := wm\<rparr>) d tp w = Inr t \<longrightarrow>
          lags t = lags s \<and> queue_at_start t = queue_at_start s)
    \<and> (\<forall>ctx ts lgs. dcount_of (M\<lparr>waittime_model := wm\<rparr>) ctx ts lgs = dcount_of M ctx ts lgs)
    \<and> (\<forall>ctx ts r q. dmulti_of (M\<lparr>waittime_model := wm\<rparr>) ctx ts r q = dmulti_of M ctx ts r q)"
proof -
  from run_Inr [OF assms(1)] obtain c1 s where
    s: "run_slots 21 jp M d tp w = Inr s" "results s = rep" by blast
  from run_Inr [OF assms(2)] obtain c2 t where
    t: "run_slots 21 jp (M\<lparr>waittime_model := wm\<rparr>) d tp w = Inr t" "results t = rep'" by blast
  from run_slots_same_flow [OF s(1) t(1)] have
    "map predicted_arrivals rep' = map predicted_arrivals rep"
    "map predicted_queue rep' = map predicted_queue rep"
    "map time_label rep' = map time_label rep"
    by (simp_all add: same_flow_def s(2) t(2))
  moreover have "\<forall>k s t. run_slots k jp M d tp w = Inr s
          \<and> run_slots k jp (M\<lparr>waittime_model := wm\<rparr>) d tp w = Inr t \<longrightarrow>
          lags t = lags s \<and> queue_at_start t = queue_at_start s"
    using run_slots_same_flow [of _ jp M d tp w _ wm] by (auto simp: same_flow_def)
  moreover have "\<forall>ctx ts lgs. dcount_of (M\<lparr>waittime_model := wm\<rparr>) ctx ts lgs
      = dcount_of M ctx ts lgs"
    by (simp add: dcount_of_def)
  moreover have "\<forall>ctx ts r q. dmulti_of (M\<lparr>waittime_model := wm\<rparr>) ctx ts r q
      = dmulti_of M ctx ts r q"
    by (simp add: dmulti_of_def)
  ultimately show ?thesis by (intro conjI)
qed

theorem wait_scorer_does_not_feed_forward_witness:
  "run no_holiday example_models example_date 1200 ame = Inr example_report
   \<and> (\<exists>rep'. run no_holiday (example_models\<lparr>waittime_model := (\<lambda>v. Inr 100)\<rparr>)
                 example_date 1200 ame = Inr rep'
        \<and> predicted_wait_minutes (rep' ! 0) = 100
        \<and> predicted_wait_minutes (example_report ! 0) = 0
        \<and> map predicted_arrivals rep' = map predicted_arrivals example_report
        \<and> map predicted_queue rep' = map predicted_queue example_report)"
proof -
  from slow_run obtain rep' where
    r: "run no_holiday (example_models\<lparr>waittime_model := (\<lambda>v. Inr 100)\<rparr>)
          example_date 1200 ame = Inr rep'"
    unfolding slow_models_def by blast
  have w: "predicted_wait_minutes (rep' ! 0) = 100"
    using slow_run_first_wait [of rep'] r by (simp add: slow_models_def)
  have w0: "predicted_wait_minutes (example_report ! 0) = 0"
    by (simp add: example_report_def)
  from wait_scorer_does_not_feed_forward [OF example_run r]
  have "map predicted_arrivals rep' = map predicted_arrivals example_report"
    and "map predicted_queue rep' = map predicted_queue example_report"
    by simp_all
  with r w w0 have "\<exists>rep'. run no_holiday (example_models\<lparr>waittime_model := (\<lambda>v. Inr 100)\<rparr>)
                 example_date 1200 ame = Inr rep'
        \<and> predicted_wait_minutes (rep' ! 0) = 100
        \<and> predicted_wait_minutes (example_report ! 0) = 0
        \<and> map predicted_arrivals rep' = map predicted_arrivals example_report
        \<and> map predicted_queue rep' = map predicted_queue example_report"
    by blast
  with example_run show ?thesis by (intro conjI)
qed

end
